theory Spec2Isabelle
  imports Complex_Main
begin

section \<open>The battlecode client's renderer (src/renderer.ts)\<close>

text \<open>
  A shallow embedding of the class \<open>Renderer\<close>. Numbers are IEEE doubles with rounding,
  overflow, the infinities and NaN. The canvas context is an explicit state (current
  drawing state, stack of saved states, log of the calls issued); every method takes the
  context and returns the updated one. The one exception the rendering methods can raise
  (\<open>drawImage\<close> on a sprite lookup that gave \<open>undefined\<close>) is a value that carries the
  context as it is when the exception leaves the method.
\<close>

subsection \<open>JavaScript numbers\<close>

text \<open>
  A number is a finite double, given by its real value, one of the two infinities, or
  NaN. The one thing left out is the sign of zero: \<open>-0\<close> and \<open>0\<close> are both \<open>Num 0\<close>, and
  a division by zero takes the zero as \<open>+0\<close>.
\<close>

datatype number = Num real | PInf | NInf | NaN

text \<open>
  Rounding a real to the nearest double, ties to even. \<open>expo r\<close> is the binary exponent
  of \<open>r\<close>, not below the least normal exponent -1022; \<open>quantum r\<close> is the spacing of the
  doubles around \<open>r\<close>, 52 binary places below the exponent (from \<open>2 powi -1074\<close> for the
  subnormals up to \<open>2 powi 971\<close>); \<open>to_double r\<close> is the multiple of the quantum nearest
  to \<open>r\<close>, or an infinity when that multiple is beyond the largest double.
\<close>

function expo_up :: "real \<Rightarrow> int" where
  "expo_up r = (if r < 2 then 0 else 1 + expo_up (r / 2))"
  by pat_completeness auto
termination
  by (relation "measure (\<lambda>r. nat \<lceil>r\<rceil>)") (auto, linarith)

function expo_down :: "real \<Rightarrow> int" where
  "expo_down r = (if r \<le> 0 \<or> 1 \<le> r then 0 else expo_down (2 * r) - 1)"
  by pat_completeness auto
termination
proof (relation "measure (\<lambda>r. nat \<lceil>1 / r\<rceil>)")
  show "wf (measure (\<lambda>r::real. nat \<lceil>1 / r\<rceil>))" by simp
next
  fix r :: real
  assume "\<not> (r \<le> 0 \<or> 1 \<le> r)"
  then have r: "0 < r" "r < 1" by simp_all
  define x where "x = 1 / r"
  have x: "1 < x" using r by (simp add: x_def)
  have "\<lceil>x / 2\<rceil> < \<lceil>x\<rceil>"
  proof (cases "2 \<le> x")
    case True
    then have "x / 2 \<le> x - 1" by simp
    then have "\<lceil>x / 2\<rceil> \<le> \<lceil>x - 1\<rceil>" by (rule ceiling_mono)
    then show ?thesis by simp
  next
    case False
    have "1 < \<lceil>x\<rceil>" using x by (simp add: less_ceiling_iff)
    moreover have "x / 2 \<le> of_int 1" using False by simp
    then have "\<lceil>x / 2\<rceil> \<le> 1" by (rule ceiling_le)
    ultimately show ?thesis by linarith
  qed
  moreover have "1 / (2 * r) = x / 2" by (simp add: x_def)
  moreover have "0 < \<lceil>x\<rceil>" using x by (simp add: less_ceiling_iff)
  ultimately have "nat \<lceil>1 / (2 * r)\<rceil> < nat \<lceil>1 / r\<rceil>"
    unfolding x_def[symmetric] by (simp only: zless_nat_conj)
  then show "(2 * r, r) \<in> measure (\<lambda>r. nat \<lceil>1 / r\<rceil>)" by (simp only: in_measure)
qed

declare expo_up.simps [simp del] expo_down.simps [simp del]

definition expo :: "real \<Rightarrow> int" where
  "expo r = (if 1 \<le> \<bar>r\<bar> then expo_up \<bar>r\<bar>
             else if \<bar>r\<bar> < 2 powi (- 1022) then - 1022
             else expo_down \<bar>r\<bar>)"

definition quantum :: "real \<Rightarrow> real" where
  "quantum r = 2 powi (expo r - 52)"

definition round_half_even :: "real \<Rightarrow> int" where
  "round_half_even x =
     (let f = \<lfloor>x\<rfloor>; d = x - of_int f
      in if d < 1 / 2 then f else if 1 / 2 < d then f + 1 else if even f then f else f + 1)"

definition nearest :: "real \<Rightarrow> real" where
  "nearest r = of_int (round_half_even (r / quantum r)) * quantum r"

definition to_double :: "real \<Rightarrow> number" where
  "to_double r =
     (let v = nearest r
      in if 2 ^ 1024 \<le> v then PInf else if v \<le> - (2 ^ 1024) then NInf else Num v)"

text \<open>
  The arithmetic of doubles: the exact result, rounded; the usual rules for the
  infinities and NaN. Comparisons with NaN are false.
\<close>

instantiation number :: "{plus, minus, uminus, times, inverse, ord}"
begin

fun plus_number :: "number \<Rightarrow> number \<Rightarrow> number" where
  "plus_number (Num a) (Num b) = to_double (a + b)"
| "plus_number NaN _ = NaN"
| "plus_number _ NaN = NaN"
| "plus_number PInf NInf = NaN"
| "plus_number NInf PInf = NaN"
| "plus_number PInf _ = PInf"
| "plus_number _ PInf = PInf"
| "plus_number NInf _ = NInf"
| "plus_number _ NInf = NInf"

fun uminus_number :: "number \<Rightarrow> number" where
  "uminus_number (Num a) = Num (- a)"
| "uminus_number PInf = NInf"
| "uminus_number NInf = PInf"
| "uminus_number NaN = NaN"

fun minus_number :: "number \<Rightarrow> number \<Rightarrow> number" where
  "minus_number (Num a) (Num b) = to_double (a - b)"
| "minus_number NaN _ = NaN"
| "minus_number _ NaN = NaN"
| "minus_number PInf PInf = NaN"
| "minus_number NInf NInf = NaN"
| "minus_number PInf _ = PInf"
| "minus_number _ NInf = PInf"
| "minus_number NInf _ = NInf"
| "minus_number _ PInf = NInf"

fun times_number :: "number \<Rightarrow> number \<Rightarrow> number" where
  "times_number (Num a) (Num b) = to_double (a * b)"
| "times_number NaN _ = NaN"
| "times_number _ NaN = NaN"
| "times_number (Num a) PInf = (if a = 0 then NaN else if 0 < a then PInf else NInf)"
| "times_number (Num a) NInf = (if a = 0 then NaN else if 0 < a then NInf else PInf)"
| "times_number PInf (Num b) = (if b = 0 then NaN else if 0 < b then PInf else NInf)"
| "times_number NInf (Num b) = (if b = 0 then NaN else if 0 < b then NInf else PInf)"
| "times_number PInf PInf = PInf"
| "times_number NInf NInf = PInf"
| "times_number PInf NInf = NInf"
| "times_number NInf PInf = NInf"

fun divide_number :: "number \<Rightarrow> number \<Rightarrow> number" where
  "divide_number (Num a) (Num b) =
     (if b = 0 then (if a = 0 then NaN else if 0 < a then PInf else NInf)
      else to_double (a / b))"
| "divide_number NaN _ = NaN"
| "divide_number _ NaN = NaN"
| "divide_number (Num a) _ = Num 0"
| "divide_number PInf (Num b) = (if 0 \<le> b then PInf else NInf)"
| "divide_number NInf (Num b) = (if 0 \<le> b then NInf else PInf)"
| "divide_number _ _ = NaN"

definition inverse_number :: "number \<Rightarrow> number" where
  "inverse_number x = divide (Num 1) x"

fun less_eq_number :: "number \<Rightarrow> number \<Rightarrow> bool" where
  "less_eq_number (Num a) (Num b) = (a \<le> b)"
| "less_eq_number NaN _ = False"
| "less_eq_number _ NaN = False"
| "less_eq_number NInf _ = True"
| "less_eq_number _ PInf = True"
| "less_eq_number _ _ = False"

fun less_number :: "number \<Rightarrow> number \<Rightarrow> bool" where
  "less_number (Num a) (Num b) = (a < b)"
| "less_number NaN _ = False"
| "less_number _ NaN = False"
| "less_number PInf _ = False"
| "less_number _ NInf = False"
| "less_number _ _ = True"

instance ..

end

text \<open>\<open>is_finite x\<close>: neither an infinity nor NaN. \<open>double x\<close>: a value a double can
  hold, that is an infinity, NaN, or a real that rounding leaves as it is.\<close>

fun is_finite :: "number \<Rightarrow> bool" where
  "is_finite (Num a) = True"
| "is_finite _ = False"

fun double :: "number \<Rightarrow> bool" where
  "double (Num a) = (to_double a = Num a)"
| "double _ = True"

text \<open>\<open>steady x nextX\<close>: \<open>x\<close> is a finite double and the double \<open>nextX - x\<close> is finite,
  so \<open>nextX\<close> is neither NaN nor an infinity and the difference did not overflow.\<close>

definition steady :: "number \<Rightarrow> number \<Rightarrow> bool" where
  "steady x nextX = (is_finite x \<and> double x \<and> is_finite (nextX - x))"

text \<open>\<open>xs[i]\<close>: the element, or \<open>undefined\<close> (\<open>None\<close>) out of range.\<close>

definition elemAt :: "'a list \<Rightarrow> nat \<Rightarrow> 'a option" where
  "elemAt xs i = (if i < length xs then Some (xs ! i) else None)"

text \<open>\<open>xs[i]\<close> used as a number: \<open>undefined\<close> becomes NaN in arithmetic.\<close>

definition numAt :: "number list \<Rightarrow> nat \<Rightarrow> number" where
  "numAt xs i = (case elemAt xs i of Some v \<Rightarrow> v | None \<Rightarrow> NaN)"

text \<open>\<open>table[k]\<close> for an index \<open>k\<close> that was itself read from an array: the property
  \<open>undefined\<close> does not exist, so the lookup gives \<open>undefined\<close>.\<close>

definition property :: "(int \<rightharpoonup> 'a) \<Rightarrow> int option \<Rightarrow> 'a option" where
  "property table k = (case k of None \<Rightarrow> None | Some j \<Rightarrow> table j)"

subsection \<open>The canvas context\<close>

datatype 'img style = Color string | Pattern 'img

record 'img drawstate =
  transform :: "real \<times> real \<times> real \<times> real \<times> real \<times> real"
  fillStyle :: "'img style"
  strokeStyle :: "'img style"
  lineWidth :: number

datatype 'img op =
    DrawImage 'img number number number number
  | FillRect number number number number
  | StrokeRect number number number number
  | BeginPath
  | Arc number number number number number bool
  | MoveTo number number
  | LineTo number number
  | Fill
  | Stroke

text \<open>
  \<open>cur\<close> is what \<open>save\<close> saves (the part of it the renderer touches), \<open>stack\<close> the saved
  states, \<open>calls\<close> the drawing and path calls issued so far, each with the drawing state
  it was issued under. \<open>ops\<close> is the log without the states.
  The log holds the calls the renderer makes, with the arguments it passes: that the
  canvas paints nothing for a call with a non-finite argument is not modelled. The
  transform is kept in exact reals: the matrix arithmetic is the canvas's own, and no
  property below depends on its rounding.
\<close>

record 'img ctx =
  cur :: "'img drawstate"
  stack :: "'img drawstate list"
  calls :: "('img drawstate \<times> 'img op) list"

definition ops :: "'img ctx \<Rightarrow> 'img op list" where
  "ops c = map snd (calls c)"

datatype error = TypeError

text \<open>The result of a method that may raise: the context it returns (\<open>Inr\<close>), or the
  error with the context as it is when the error leaves the method (\<open>Inl\<close>).\<close>

type_synonym 'img result = "(error \<times> 'img ctx) + 'img ctx"

definition context_after :: "'img result \<Rightarrow> 'img ctx" where
  "context_after res = (case res of Inl (e, c) \<Rightarrow> c | Inr c \<Rightarrow> c)"

definition save :: "'img ctx \<Rightarrow> 'img ctx" where
  "save c = c\<lparr>stack := cur c # stack c\<rparr>"

text \<open>\<open>restore\<close> on an empty stack does nothing.\<close>

definition restore :: "'img ctx \<Rightarrow> 'img ctx" where
  "restore c = (case stack c of [] \<Rightarrow> c | s # ss \<Rightarrow> c\<lparr>cur := s, stack := ss\<rparr>)"

text \<open>\<open>scale\<close> and \<open>translate\<close> return without effect on a non-finite argument.\<close>

fun scale :: "number \<Rightarrow> number \<Rightarrow> 'img ctx \<Rightarrow> 'img ctx" where
  "scale (Num sx) (Num sy) c =
     (case transform (cur c) of (a, b, c', d, e, f) \<Rightarrow>
        c\<lparr>cur := (cur c)\<lparr>transform := (a * sx, b * sx, c' * sy, d * sy, e, f)\<rparr>\<rparr>)"
| "scale _ _ c = c"

fun translate :: "number \<Rightarrow> number \<Rightarrow> 'img ctx \<Rightarrow> 'img ctx" where
  "translate (Num tx) (Num ty) c =
     (case transform (cur c) of (a, b, c', d, e, f) \<Rightarrow>
        c\<lparr>cur := (cur c)\<lparr>transform :=
          (a, b, c', d, a * tx + c' * ty + e, b * tx + d * ty + f)\<rparr>\<rparr>)"
| "translate _ _ c = c"

definition set_fillStyle :: "'img style \<Rightarrow> 'img ctx \<Rightarrow> 'img ctx" where
  "set_fillStyle s c = c\<lparr>cur := (cur c)\<lparr>fillStyle := s\<rparr>\<rparr>"

definition set_strokeStyle :: "'img style \<Rightarrow> 'img ctx \<Rightarrow> 'img ctx" where
  "set_strokeStyle s c = c\<lparr>cur := (cur c)\<lparr>strokeStyle := s\<rparr>\<rparr>"

definition set_lineWidth :: "number \<Rightarrow> 'img ctx \<Rightarrow> 'img ctx" where
  "set_lineWidth w c = c\<lparr>cur := (cur c)\<lparr>lineWidth := w\<rparr>\<rparr>"

definition issue :: "'img op \<Rightarrow> 'img ctx \<Rightarrow> 'img ctx" where
  "issue p c = c\<lparr>calls := calls c @ [(cur c, p)]\<rparr>"

text \<open>\<open>drawImage\<close> raises a TypeError when its image argument is \<open>undefined\<close>.\<close>

definition drawImage ::
  "'img option \<Rightarrow> number \<Rightarrow> number \<Rightarrow> number \<Rightarrow> number \<Rightarrow> 'img ctx \<Rightarrow> 'img result" where
  "drawImage img dx dy dw dh c =
     (case img of
        None \<Rightarrow> Inl (TypeError, c)
      | Some im \<Rightarrow> Inr (issue (DrawImage im dx dy dw dh) c))"

definition fillRect :: "number \<Rightarrow> number \<Rightarrow> number \<Rightarrow> number \<Rightarrow> 'img ctx \<Rightarrow> 'img ctx" where
  "fillRect x y w h c = issue (FillRect x y w h) c"

definition strokeRect :: "number \<Rightarrow> number \<Rightarrow> number \<Rightarrow> number \<Rightarrow> 'img ctx \<Rightarrow> 'img ctx" where
  "strokeRect x y w h c = issue (StrokeRect x y w h) c"

subsection \<open>The world snapshot and the renderer's collaborators\<close>

text \<open>
  \<open>GameWorld\<close>, \<open>Metadata\<close> and \<open>schema\<close> come from the package battlecode-playback and
  \<open>AllImages\<close> from the image loader; the records hold the fields the renderer reads.
  The collections are structures of arrays with their own \<open>length\<close> field; a numeric
  array holds numbers, so an entry may be an infinity or NaN.
  \<open>indicatorDots\<close> and \<open>indicatorLines\<close> are the fields named by the two lines commented
  out at the head of \<open>renderIndicatorStrings\<close>.
\<close>

record Bodies =
  body_length :: nat
  body_type :: "int list"
  body_team :: "int list"
  body_x :: "number list"
  body_y :: "number list"
  body_health :: "number list"
  body_radius :: "number list"

record Bullets =
  bullet_length :: nat
  bullet_x :: "number list"
  bullet_y :: "number list"
  bullet_velX :: "number list"
  bullet_velY :: "number list"
  bullet_spawnedTime :: "number list"

record Dots =
  dots_length :: nat
  dots_x :: "number list"
  dots_y :: "number list"
  dots_red :: "int list"
  dots_green :: "int list"
  dots_blue :: "int list"

record Lines =
  lines_length :: nat
  lines_startX :: "number list"
  lines_startY :: "number list"
  lines_endX :: "number list"
  lines_endY :: "number list"
  lines_red :: "int list"
  lines_green :: "int list"
  lines_blue :: "int list"

record Victor =
  vec_x :: number
  vec_y :: number

record GameWorld =
  bodies :: Bodies
  bullets :: Bullets
  minCorner :: Victor
  maxCorner :: Victor
  turn :: number
  indicatorDots :: Dots
  indicatorLines :: Lines

record NextStep =
  next_bodies :: Bodies

text \<open>The codes of \<open>schema.BodyType\<close>; their values are not in this repository, so they
  are a parameter.\<close>

record BodyType =
  ARCHON :: int
  GARDENER :: int
  LUMBERJACK :: int
  RECRUIT :: int
  SOLDIER :: int
  TANK :: int
  SCOUT :: int
  TREE_BULLET :: int
  TREE_NEUTRAL :: int

record BodyTypeMetadata =
  maxHealth :: number

record Metadata =
  types :: "int \<rightharpoonup> BodyTypeMetadata"

record 'img AllImages =
  background :: 'img
  unknown :: 'img
  tree_fullHealth :: 'img
  robot_bulletTree :: "int \<rightharpoonup> 'img"
  robot_archon :: "int \<rightharpoonup> 'img"
  robot_gardener :: "int \<rightharpoonup> 'img"
  robot_lumberjack :: "int \<rightharpoonup> 'img"
  robot_recruit :: "int \<rightharpoonup> 'img"
  robot_soldier :: "int \<rightharpoonup> 'img"
  robot_tank :: "int \<rightharpoonup> 'img"
  robot_scout :: "int \<rightharpoonup> 'img"
  bullet_fast :: 'img
  bullet_medium :: 'img
  bullet_slow :: 'img

text \<open>The renderer's fields (\<open>canvas_width\<close> is \<open>canvas.width\<close>), with the module's import
  \<open>schema.BodyType\<close>.\<close>

record 'img Renderer =
  canvas_width :: nat
  imgs :: "'img AllImages"
  metadata :: Metadata
  bgPattern :: "'img style"
  healthBars :: bool
  schema :: BodyType

subsection \<open>Constants\<close>

text \<open>A decimal literal is the double nearest to it; the literals that are doubles
  themselves are written with \<open>Num\<close>.\<close>

definition BULLET_SIZE :: number where
  "BULLET_SIZE = Num 0.25"

definition BULLET_SIZE_HALF :: number where
  "BULLET_SIZE_HALF = BULLET_SIZE / Num 2"

definition INDICATOR_DOT_SIZE :: number where
  "INDICATOR_DOT_SIZE = Num 0.25"

definition INDICATOR_LINE_WIDTH :: number where
  "INDICATOR_LINE_WIDTH = to_double 0.1"

definition HEALTH_BAR_HEIGHT :: number where
  "HEALTH_BAR_HEIGHT = to_double 0.3"

definition HEALTH_BAR_WIDTH :: number where
  "HEALTH_BAR_WIDTH = Num 2"

definition HEALTH_BAR_WIDTH_HALF :: number where
  "HEALTH_BAR_WIDTH_HALF = HEALTH_BAR_WIDTH / Num 2"

definition Math_PI :: number where
  "Math_PI = to_double 3.141592653589793"

definition HIGH_SPEED_THRESH :: number where
  "HIGH_SPEED_THRESH = (Num 2 * Num 2) - to_double 0.00001"

definition MED_SPEED_THRESH :: number where
  "MED_SPEED_THRESH = (Num 1.5 * Num 1.5) - to_double 0.00001"

subsection \<open>The renderer's methods\<close>

definition toggleHealthBars :: "'img Renderer \<Rightarrow> 'img Renderer" where
  "toggleHealthBars r = r\<lparr>healthBars := \<not> healthBars r\<rparr>"

definition renderBackground :: "'img Renderer \<Rightarrow> GameWorld \<Rightarrow> 'img ctx \<Rightarrow> 'img ctx" where
  "renderBackground r world c =
     (let c1 = save c;
          c2 = set_fillStyle (bgPattern r) c1;
          minX = vec_x (minCorner world);
          minY = vec_y (minCorner world);
          width = vec_x (maxCorner world) - vec_x (minCorner world);
          height = vec_y (maxCorner world) - vec_y (minCorner world);
          scale' = Num 20;
          c3 = scale (Num 1 / scale') (Num 1 / scale') c2;
          c4 = fillRect (minX * scale') (minY * scale') (width * scale') (height * scale') c3
      in restore c4)"

definition drawHealthBar ::
  "'img Renderer \<Rightarrow> number \<Rightarrow> number \<Rightarrow> number \<Rightarrow> int option \<Rightarrow> 'img ctx \<Rightarrow> 'img ctx" where
  "drawHealthBar r x y health type c =
     (if \<not> healthBars r then c
      else case property (types (metadata r)) type of
        None \<Rightarrow> c
      | Some bodyType \<Rightarrow>
          (let c1 = set_fillStyle (Color ''green'') c;
               c2 = fillRect x y (HEALTH_BAR_WIDTH * health / maxHealth bodyType)
                      HEALTH_BAR_HEIGHT c1;
               c3 = set_strokeStyle (Color ''black'') c2;
               c4 = set_lineWidth (to_double 0.1) c3
           in strokeRect x y HEALTH_BAR_WIDTH HEALTH_BAR_HEIGHT c4))"

text \<open>A \<open>for\<close> loop over the indices whose body may raise: the first error ends it.\<close>

fun forEach :: "(nat \<Rightarrow> 's \<Rightarrow> 'e + 's) \<Rightarrow> nat list \<Rightarrow> 's \<Rightarrow> 'e + 's" where
  "forEach body [] c = Inr c"
| "forEach body (i # ns) c =
     (case body i c of Inl e \<Rightarrow> Inl e | Inr c' \<Rightarrow> forEach body ns c')"

text \<open>The body of the loop of \<open>renderBodies\<close>, at index \<open>i\<close>.\<close>

definition renderBodies_body ::
  "'img Renderer \<Rightarrow> GameWorld \<Rightarrow> nat \<Rightarrow> 'img ctx \<Rightarrow> 'img result" where
  "renderBodies_body r world i c =
     (let types' = body_type (bodies world);
          teams = body_team (bodies world);
          healths = body_health (bodies world);
          x = numAt (body_x (bodies world)) i;
          y = numAt (body_y (bodies world)) i;
          radius = numAt (body_radius (bodies world)) i;
          team = elemAt teams i;
          img =
            (if elemAt types' i = Some (TREE_NEUTRAL (schema r)) then Some (tree_fullHealth (imgs r))
             else if elemAt types' i = Some (TREE_BULLET (schema r)) then property (robot_bulletTree (imgs r)) team
             else if elemAt types' i = Some (ARCHON (schema r)) then property (robot_archon (imgs r)) team
             else if elemAt types' i = Some (GARDENER (schema r)) then property (robot_gardener (imgs r)) team
             else if elemAt types' i = Some (LUMBERJACK (schema r)) then property (robot_lumberjack (imgs r)) team
             else if elemAt types' i = Some (RECRUIT (schema r)) then property (robot_recruit (imgs r)) team
             else if elemAt types' i = Some (SOLDIER (schema r)) then property (robot_soldier (imgs r)) team
             else if elemAt types' i = Some (TANK (schema r)) then property (robot_tank (imgs r)) team
             else if elemAt types' i = Some (SCOUT (schema r)) then property (robot_scout (imgs r)) team
             else Some (unknown (imgs r)))
      in case drawImage img (x - radius) (y - radius) (radius * Num 2) (radius * Num 2) c of
           Inl e \<Rightarrow> Inl e
         | Inr c1 \<Rightarrow>
             Inr (drawHealthBar r (x - HEALTH_BAR_WIDTH_HALF) (y + radius)
                    (numAt healths i) (elemAt types' i) c1))"

definition renderBodies :: "'img Renderer \<Rightarrow> GameWorld \<Rightarrow> 'img ctx \<Rightarrow> 'img result" where
  "renderBodies r world c =
     forEach (renderBodies_body r world) [0 ..< body_length (bodies world)] c"

text \<open>The body of the loop of \<open>renderBodiesInterpolated\<close>, at index \<open>i\<close>.\<close>

definition renderBodiesInterpolated_body ::
  "'img Renderer \<Rightarrow> GameWorld \<Rightarrow> NextStep \<Rightarrow> number \<Rightarrow> nat \<Rightarrow> 'img ctx \<Rightarrow> 'img result" where
  "renderBodiesInterpolated_body r world nextStep lerpAmount i c =
     (let types' = body_type (bodies world);
          teams = body_team (bodies world);
          healths = body_health (bodies world);
          x = numAt (body_x (bodies world)) i;
          y = numAt (body_y (bodies world)) i;
          nextX = numAt (body_x (next_bodies nextStep)) i;
          nextY = numAt (body_y (next_bodies nextStep)) i;
          realX = x + (nextX - x) * lerpAmount;
          realY = y + (nextY - y) * lerpAmount;
          radius = numAt (body_radius (bodies world)) i;
          team = elemAt teams i;
          img =
            (if elemAt types' i = Some (TREE_NEUTRAL (schema r)) then Some (tree_fullHealth (imgs r))
             else if elemAt types' i = Some (TREE_BULLET (schema r)) then property (robot_bulletTree (imgs r)) team
             else if elemAt types' i = Some (ARCHON (schema r)) then property (robot_archon (imgs r)) team
             else if elemAt types' i = Some (GARDENER (schema r)) then property (robot_gardener (imgs r)) team
             else if elemAt types' i = Some (LUMBERJACK (schema r)) then property (robot_lumberjack (imgs r)) team
             else if elemAt types' i = Some (RECRUIT (schema r)) then property (robot_recruit (imgs r)) team
             else if elemAt types' i = Some (SOLDIER (schema r)) then property (robot_soldier (imgs r)) team
             else if elemAt types' i = Some (TANK (schema r)) then property (robot_tank (imgs r)) team
             else if elemAt types' i = Some (SCOUT (schema r)) then property (robot_scout (imgs r)) team
             else Some (unknown (imgs r)))
      in case drawImage img (realX - radius) (realY - radius) (radius * Num 2) (radius * Num 2) c of
           Inl e \<Rightarrow> Inl e
         | Inr c1 \<Rightarrow>
             Inr (drawHealthBar r (realX - HEALTH_BAR_WIDTH_HALF) (realY + radius)
                    (numAt healths i) (elemAt types' i) c1))"

definition renderBodiesInterpolated ::
  "'img Renderer \<Rightarrow> GameWorld \<Rightarrow> NextStep \<Rightarrow> number \<Rightarrow> 'img ctx \<Rightarrow> 'img result" where
  "renderBodiesInterpolated r world nextStep lerpAmount c =
     forEach (renderBodiesInterpolated_body r world nextStep lerpAmount)
       [0 ..< body_length (bodies world)] c"

text \<open>The body of the loop of \<open>renderBullets\<close>; the three bullet sprites are images, so
  \<open>drawImage\<close> cannot raise here.\<close>

definition renderBullets_body ::
  "'img Renderer \<Rightarrow> GameWorld \<Rightarrow> number \<Rightarrow> nat \<Rightarrow> 'img ctx \<Rightarrow> 'img ctx" where
  "renderBullets_body r world lerpAmount i c =
     (let velX = numAt (bullet_velX (bullets world)) i;
          velY = numAt (bullet_velY (bullets world)) i;
          dt = (turn world + lerpAmount) - numAt (bullet_spawnedTime (bullets world)) i;
          x = numAt (bullet_x (bullets world)) i + velX * dt;
          y = numAt (bullet_y (bullets world)) i + velY * dt;
          speedsq = velX * velX + velY * velY;
          img = (if speedsq \<ge> HIGH_SPEED_THRESH then bullet_fast (imgs r)
                 else if speedsq \<ge> MED_SPEED_THRESH then bullet_medium (imgs r)
                 else bullet_slow (imgs r))
      in issue (DrawImage img (x - BULLET_SIZE_HALF) (y - BULLET_SIZE_HALF)
                  BULLET_SIZE BULLET_SIZE) c)"

definition renderBullets :: "'img Renderer \<Rightarrow> GameWorld \<Rightarrow> number \<Rightarrow> 'img ctx \<Rightarrow> 'img ctx" where
  "renderBullets r world lerpAmount c =
     fold (renderBullets_body r world lerpAmount) [0 ..< bullet_length (bullets world)] c"

text \<open>
  The two loops of \<open>renderIndicatorStrings\<close>, over the collection they are given. Each
  builds a path and assigns to \<open>fillStyle\<close> the string between single quotes, which is
  not a template: the text \<open>rgb(${red}, ${green}, ${blue})\<close> itself. Neither calls
  \<open>fill\<close> or \<open>stroke\<close>. (The canvas's parsing of a colour string is not modelled: the
  assignment stores the string.)
\<close>

definition dots_body :: "Dots \<Rightarrow> nat \<Rightarrow> 'img ctx \<Rightarrow> 'img ctx" where
  "dots_body dots i c =
     (let c1 = issue BeginPath c;
          c2 = issue (Arc (numAt (dots_x dots) i) (numAt (dots_y dots) i) INDICATOR_DOT_SIZE
                        (Num 0) (Num 2 * Math_PI) False) c1
      in set_fillStyle (Color ''rgb(${red}, ${green}, ${blue})'') c2)"

definition lines_body :: "Lines \<Rightarrow> nat \<Rightarrow> 'img ctx \<Rightarrow> 'img ctx" where
  "lines_body lines i c =
     (let c1 = issue BeginPath c;
          c2 = issue (MoveTo (numAt (lines_startX lines) i) (numAt (lines_startY lines) i)) c1;
          c3 = issue (LineTo (numAt (lines_endX lines) i) (numAt (lines_endY lines) i)) c2
      in set_fillStyle (Color ''rgb(${red}, ${green}, ${blue})'') c3)"

text \<open>\<open>renderIndicatorStrings\<close> does not read the world: \<open>dots\<close> and \<open>lines\<close> are the
  two object literals of the method, of length 0.\<close>

definition renderIndicatorStrings :: "GameWorld \<Rightarrow> 'img ctx \<Rightarrow> 'img ctx" where
  "renderIndicatorStrings world c =
     (let dots = \<lparr>dots_length = 0, dots_x = [], dots_y = [],
                  dots_red = [], dots_green = [], dots_blue = []\<rparr>;
          lines = \<lparr>lines_length = 0, lines_startX = [], lines_startY = [],
                   lines_endX = [], lines_endY = [],
                   lines_red = [], lines_green = [], lines_blue = []\<rparr>;
          c1 = fold (dots_body dots) [0 ..< dots_length dots] c;
          c2 = set_lineWidth INDICATOR_LINE_WIDTH c1
      in fold (lines_body lines) [0 ..< lines_length lines] c2)"

text \<open>\<open>render\<close>; the optional arguments are options, and \<open>!= null\<close> holds of every
  number, 0 included. There is no \<open>try\<close>: an error of the body pass leaves \<open>render\<close>
  before the indicator pass and the final \<open>restore\<close>.\<close>

definition render ::
  "'img Renderer \<Rightarrow> GameWorld \<Rightarrow> Victor \<Rightarrow> number \<Rightarrow> NextStep option \<Rightarrow> number option
     \<Rightarrow> 'img ctx \<Rightarrow> 'img result" where
  "render r world viewMin viewWidth nextStep lerpAmount c =
     (let scale' = Num (real (canvas_width r)) / viewWidth;
          c1 = save c;
          c2 = scale scale' scale' c1;
          c3 = translate (- vec_x viewMin) (- vec_y viewMin) c2;
          c4 = renderBackground r world c3;
          drawn =
            (case (lerpAmount, nextStep) of
               (Some lerpAmount', Some nextStep') \<Rightarrow>
                 renderBodiesInterpolated r world nextStep' lerpAmount'
                   (renderBullets r world lerpAmount' c4)
             | _ \<Rightarrow> renderBodies r world (renderBullets r world (Num 0) c4))
      in case drawn of
           Inl e \<Rightarrow> Inl e
         | Inr c5 \<Rightarrow> Inr (restore (renderIndicatorStrings world c5)))"

subsection \<open>What each pass draws, in the words of the specification\<close>

text \<open>
  The sprite of body \<open>i\<close>: a fixed dispatch on the type code and the team, with the
  generic placeholder for a type code that is none of the nine; \<open>None\<close> where the sprite
  table of the body's kind has no entry for its team.
\<close>

definition sprite :: "'img Renderer \<Rightarrow> GameWorld \<Rightarrow> nat \<Rightarrow> 'img option" where
  "sprite r world i =
     (let type = elemAt (body_type (bodies world)) i;
          team = elemAt (body_team (bodies world)) i
      in if type = Some (TREE_NEUTRAL (schema r)) then Some (tree_fullHealth (imgs r))
         else if type = Some (TREE_BULLET (schema r)) then property (robot_bulletTree (imgs r)) team
         else if type = Some (ARCHON (schema r)) then property (robot_archon (imgs r)) team
         else if type = Some (GARDENER (schema r)) then property (robot_gardener (imgs r)) team
         else if type = Some (LUMBERJACK (schema r)) then property (robot_lumberjack (imgs r)) team
         else if type = Some (RECRUIT (schema r)) then property (robot_recruit (imgs r)) team
         else if type = Some (SOLDIER (schema r)) then property (robot_soldier (imgs r)) team
         else if type = Some (TANK (schema r)) then property (robot_tank (imgs r)) team
         else if type = Some (SCOUT (schema r)) then property (robot_scout (imgs r)) team
         else Some (unknown (imgs r)))"

text \<open>
  The health bar anchored at \<open>(x, y)\<close>: when health bars are enabled and the type has
  metadata, a filled rectangle of width \<open>barWidth * health / maxHealth\<close> and the outline
  of the fixed size; otherwise nothing.
\<close>

definition healthBar_ops ::
  "'img Renderer \<Rightarrow> number \<Rightarrow> number \<Rightarrow> number \<Rightarrow> int option \<Rightarrow> 'img op list" where
  "healthBar_ops r x y health type =
     (if healthBars r
      then (case property (types (metadata r)) type of
              None \<Rightarrow> []
            | Some bodyType \<Rightarrow>
                [FillRect x y (HEALTH_BAR_WIDTH * health / maxHealth bodyType) HEALTH_BAR_HEIGHT,
                 StrokeRect x y HEALTH_BAR_WIDTH HEALTH_BAR_HEIGHT])
      else [])"

text \<open>
  Body \<open>i\<close> drawn with sprite \<open>img\<close> at the position \<open>(X, Y)\<close>: the sprite centred on the
  position in the square of side \<open>2 * radius\<close>, then the health bar anchored at
  \<open>(X - barWidth / 2, Y + radius)\<close>.
\<close>

definition body_ops ::
  "'img Renderer \<Rightarrow> GameWorld \<Rightarrow> 'img \<Rightarrow> nat \<Rightarrow> number \<Rightarrow> number \<Rightarrow> 'img op list" where
  "body_ops r world img i X Y =
     (let radius = numAt (body_radius (bodies world)) i
      in DrawImage img (X - radius) (Y - radius) (radius * Num 2) (radius * Num 2)
         # healthBar_ops r (X - HEALTH_BAR_WIDTH_HALF) (Y + radius)
             (numAt (body_health (bodies world)) i) (elemAt (body_type (bodies world)) i))"

text \<open>The bullet sprite, tiered by the speed, and where bullet \<open>i\<close> is at \<open>turn + t\<close>.\<close>

definition bullet_sprite :: "'img Renderer \<Rightarrow> number \<Rightarrow> number \<Rightarrow> 'img" where
  "bullet_sprite r velX velY =
     (if HIGH_SPEED_THRESH \<le> velX * velX + velY * velY then bullet_fast (imgs r)
      else if MED_SPEED_THRESH \<le> velX * velX + velY * velY then bullet_medium (imgs r)
      else bullet_slow (imgs r))"

definition bullet_position :: "GameWorld \<Rightarrow> number \<Rightarrow> nat \<Rightarrow> number \<times> number" where
  "bullet_position world t i =
     (let dt = (turn world + t) - numAt (bullet_spawnedTime (bullets world)) i
      in (numAt (bullet_x (bullets world)) i + numAt (bullet_velX (bullets world)) i * dt,
          numAt (bullet_y (bullets world)) i + numAt (bullet_velY (bullets world)) i * dt))"

definition bullet_op :: "'img Renderer \<Rightarrow> GameWorld \<Rightarrow> number \<Rightarrow> nat \<Rightarrow> 'img op" where
  "bullet_op r world t i =
     DrawImage (bullet_sprite r (numAt (bullet_velX (bullets world)) i)
                  (numAt (bullet_velY (bullets world)) i))
       (fst (bullet_position world t i) - BULLET_SIZE_HALF)
       (snd (bullet_position world t i) - BULLET_SIZE_HALF) BULLET_SIZE BULLET_SIZE"


text \<open>Where a body is drawn: at its position, or between it and the next step's.\<close>

definition direct_position :: "GameWorld \<Rightarrow> nat \<Rightarrow> number \<times> number" where
  "direct_position world i = (numAt (body_x (bodies world)) i, numAt (body_y (bodies world)) i)"

definition lerp_position :: "GameWorld \<Rightarrow> NextStep \<Rightarrow> number \<Rightarrow> nat \<Rightarrow> number \<times> number" where
  "lerp_position world nextStep t i =
     (numAt (body_x (bodies world)) i
        + (numAt (body_x (next_bodies nextStep)) i - numAt (body_x (bodies world)) i) * t,
      numAt (body_y (bodies world)) i
        + (numAt (body_y (next_bodies nextStep)) i - numAt (body_y (bodies world)) i) * t)"

text \<open>What the body of either loop does to the context once the sprite lookup gave \<open>img\<close>,
  with \<open>p\<close> the position computed for body \<open>i\<close>: \<open>drawImage\<close>, then \<open>drawHealthBar\<close>.\<close>

definition drawn_at ::
  "'img Renderer \<Rightarrow> GameWorld \<Rightarrow> number \<times> number \<Rightarrow> 'img \<Rightarrow> nat \<Rightarrow> 'img ctx \<Rightarrow> 'img ctx" where
  "drawn_at r world p img i c =
     (let radius = numAt (body_radius (bodies world)) i
      in drawHealthBar r (fst p - HEALTH_BAR_WIDTH_HALF) (snd p + radius)
           (numAt (body_health (bodies world)) i) (elemAt (body_type (bodies world)) i)
           (issue (DrawImage img (fst p - radius) (snd p - radius)
                     (radius * Num 2) (radius * Num 2)) c))"

text \<open>The bodies a body pass draws, each with its sprite: the bodies before the first
  one whose sprite lookup gives nothing (the TypeError of \<open>drawImage\<close> ends the loop
  there), all of them when there is none.\<close>

fun drawn_bodies :: "(nat \<Rightarrow> 'img option) \<Rightarrow> nat list \<Rightarrow> (nat \<times> 'img) list" where
  "drawn_bodies sp [] = []"
| "drawn_bodies sp (i # ns) =
     (case sp i of None \<Rightarrow> [] | Some img \<Rightarrow> (i, img) # drawn_bodies sp ns)"

text \<open>The widths of the rectangles filled in green, in the order of the log.\<close>

definition green_fill_widths :: "('img drawstate \<times> 'img op) list \<Rightarrow> number list" where
  "green_fill_widths es =
     concat (map (\<lambda>e. case snd e of
                        FillRect x y w h \<Rightarrow> if fillStyle (fst e) = Color ''green'' then [w] else []
                      | _ \<Rightarrow> []) es)"

subsection \<open>A concrete renderer and world\<close>

definition imgs0 :: "string AllImages" where
  "imgs0 = \<lparr>background = ''background'', unknown = ''unknown'',
     tree_fullHealth = ''tree'',
     robot_bulletTree = [0 \<mapsto> ''bulletTree0'', 1 \<mapsto> ''bulletTree1''],
     robot_archon = [0 \<mapsto> ''archon0'', 1 \<mapsto> ''archon1''],
     robot_gardener = [0 \<mapsto> ''gardener0'', 1 \<mapsto> ''gardener1''],
     robot_lumberjack = [0 \<mapsto> ''lumberjack0'', 1 \<mapsto> ''lumberjack1''],
     robot_recruit = [0 \<mapsto> ''recruit0'', 1 \<mapsto> ''recruit1''],
     robot_soldier = [0 \<mapsto> ''soldier0'', 1 \<mapsto> ''soldier1''],
     robot_tank = [0 \<mapsto> ''tank0'', 1 \<mapsto> ''tank1''],
     robot_scout = [0 \<mapsto> ''scout0'', 1 \<mapsto> ''scout1''],
     bullet_fast = ''fast'', bullet_medium = ''medium'', bullet_slow = ''slow''\<rparr>"

definition schema0 :: BodyType where
  "schema0 = \<lparr>ARCHON = 0, GARDENER = 1, LUMBERJACK = 2, RECRUIT = 3, SOLDIER = 4,
     TANK = 5, SCOUT = 6, TREE_BULLET = 7, TREE_NEUTRAL = 8\<rparr>"

definition metadata0 :: Metadata where
  "metadata0 = \<lparr>types = [0 \<mapsto> \<lparr>maxHealth = Num 400\<rparr>, 4 \<mapsto> \<lparr>maxHealth = Num 50\<rparr>]\<rparr>"

definition renderer0 :: "string Renderer" where
  "renderer0 = \<lparr>canvas_width = 800, imgs = imgs0, metadata = metadata0,
     bgPattern = Pattern ''background'', healthBars = True, schema = schema0\<rparr>"

text \<open>A renderer whose metadata gives type 0 the \<open>maxHealth\<close> 0.\<close>

definition renderer_zero :: "string Renderer" where
  "renderer_zero = renderer0\<lparr>metadata := \<lparr>types = [0 \<mapsto> \<lparr>maxHealth = Num 0\<rparr>]\<rparr>\<rparr>"

definition state0 :: "string drawstate" where
  "state0 = \<lparr>transform = (1, 0, 0, 1, 0, 0), fillStyle = Color ''#000000'',
     strokeStyle = Color ''#000000'', lineWidth = Num 1\<rparr>"

definition ctx0 :: "string ctx" where
  "ctx0 = \<lparr>cur = state0, stack = [], calls = []\<rparr>"

text \<open>
  Two bodies, an archon of team 0 at (0, 0) and a body of the unassigned type code 99 at
  (3, 4); a bullet spawned at turn 0 at (1, 1) with velocity (2, 0) and one spawned at
  turn 1 at (2, 2) with velocity (0, 1.999); the turn is 3; one indicator dot and one
  indicator line. In the next step the archon is at (10, 0).
\<close>

definition world0 :: GameWorld where
  "world0 = \<lparr>
     bodies = \<lparr>body_length = 2, body_type = [0, 99], body_team = [0, 1],
       body_x = [Num 0, Num 3], body_y = [Num 0, Num 4],
       body_health = [Num 200, Num 10], body_radius = [Num 2, Num 1]\<rparr>,
     bullets = \<lparr>bullet_length = 2, bullet_x = [Num 1, Num 2], bullet_y = [Num 1, Num 2],
       bullet_velX = [Num 2, Num 0], bullet_velY = [Num 0, to_double 1.999],
       bullet_spawnedTime = [Num 0, Num 1]\<rparr>,
     minCorner = \<lparr>vec_x = Num 0, vec_y = Num 0\<rparr>,
     maxCorner = \<lparr>vec_x = Num 30, vec_y = Num 30\<rparr>,
     turn = Num 3,
     indicatorDots = \<lparr>dots_length = 1, dots_x = [Num 1], dots_y = [Num 1],
       dots_red = [255], dots_green = [0], dots_blue = [0]\<rparr>,
     indicatorLines = \<lparr>lines_length = 1, lines_startX = [Num 0], lines_startY = [Num 0],
       lines_endX = [Num 5], lines_endY = [Num 5],
       lines_red = [0], lines_green = [0], lines_blue = [255]\<rparr>\<rparr>"

definition next0 :: NextStep where
  "next0 = \<lparr>next_bodies = \<lparr>body_length = 2, body_type = [0, 99], body_team = [0, 1],
     body_x = [Num 10, Num 3], body_y = [Num 0, Num 4],
     body_health = [Num 200, Num 10], body_radius = [Num 2, Num 1]\<rparr>\<rparr>"

text \<open>The next step with the archon's \<open>x\<close> replaced by NaN.\<close>

definition next_nan :: NextStep where
  "next_nan = \<lparr>next_bodies = (next_bodies next0)\<lparr>body_x := [NaN, Num 3]\<rparr>\<rparr>"

text \<open>The world with the archon given team 2, for which there is no sprite.\<close>

definition world_gap :: GameWorld where
  "world_gap = world0\<lparr>bodies := (bodies world0)\<lparr>body_team := [2, 1]\<rparr>\<rparr>"

definition view0 :: Victor where
  "view0 = \<lparr>vec_x = Num 5, vec_y = Num 5\<rparr>"

section \<open>Properties\<close>

subsection \<open>Rounding to a double\<close>

lemmas double_eval =
  to_double_def nearest_def quantum_def expo_def expo_up.simps expo_down.simps
  round_half_even_def Let_def

lemma pow2_double: "(2::real) powi (e + 1) = 2 * 2 powi e"
  by (simp add: power_int_add)

lemma expo_up_spec:
  "1 \<le> r \<Longrightarrow> 0 \<le> expo_up r \<and> 2 powi expo_up r \<le> r \<and> r < 2 powi (expo_up r + 1)"
proof (induction r rule: expo_up.induct)
  case (1 r)
  show ?case
  proof (cases "r < 2")
    case True
    then have "expo_up r = 0" by (simp add: expo_up.simps)
    then show ?thesis using True "1.prems" by simp
  next
    case False
    then have e: "expo_up r = expo_up (r / 2) + 1" by (subst expo_up.simps) simp
    from False have "1 \<le> r / 2" by simp
    with "1.IH"[OF False] have ih: "0 \<le> expo_up (r / 2)" "2 powi expo_up (r / 2) \<le> r / 2"
      "r / 2 < 2 powi (expo_up (r / 2) + 1)" by simp_all
    have "(2::real) powi (expo_up (r / 2) + 1) = 2 * 2 powi expo_up (r / 2)"
      "(2::real) powi (expo_up (r / 2) + 1 + 1) = 4 * 2 powi expo_up (r / 2)"
      by (simp_all add: power_int_add)
    then show ?thesis
      unfolding e using ih by (simp del: power_int_add)
  qed
qed

lemma expo_down_spec:
  "0 < r \<Longrightarrow> r < 1 \<Longrightarrow>
     expo_down r < 0 \<and> 2 powi expo_down r \<le> r \<and> r < 2 powi (expo_down r + 1)"
proof (induction r rule: expo_down.induct)
  case (1 r)
  from "1.prems" have e: "expo_down r = expo_down (2 * r) - 1"
    by (subst expo_down.simps) simp
  show ?case
  proof (cases "1 \<le> 2 * r")
    case True
    then have "expo_down (2 * r) = 0" by (simp add: expo_down.simps)
    with e have "expo_down r = - 1" by simp
    then show ?thesis using True "1.prems" by simp
  next
    case False
    with "1.prems" have "\<not> (r \<le> 0 \<or> 1 \<le> r)" "0 < 2 * r" "2 * r < 1" by simp_all
    from "1.IH"[OF this] have ih: "expo_down (2 * r) < 0"
      "2 powi expo_down (2 * r) \<le> 2 * r" "2 * r < 2 powi (expo_down (2 * r) + 1)"
      by simp_all
    have "(2::real) powi expo_down (2 * r) = 2 * 2 powi (expo_down (2 * r) - 1)"
      "(2::real) powi (expo_down (2 * r) + 1) = 2 * 2 powi (expo_down (2 * r) - 1 + 1)"
      using pow2_double[of "expo_down (2 * r) - 1"] pow2_double[of "expo_down (2 * r)"]
      by simp_all
    then show ?thesis
      unfolding e using ih by simp
  qed
qed

lemma expo_ge: "- 1022 \<le> expo r"
proof -
  have "- 1022 \<le> expo_down \<bar>r\<bar>" if "\<not> \<bar>r\<bar> < 2 powi (- 1022)" "\<bar>r\<bar> < 1"
  proof (rule ccontr)
    assume "\<not> - 1022 \<le> expo_down \<bar>r\<bar>"
    then have "expo_down \<bar>r\<bar> + 1 \<le> - 1022" by simp
    then have "(2::real) powi (expo_down \<bar>r\<bar> + 1) \<le> 2 powi (- 1022)"
      by (intro power_int_increasing) simp_all
    moreover have "0 < \<bar>r\<bar>" using that(1) by (cases "r = 0") simp_all
    then have "\<bar>r\<bar> < 2 powi (expo_down \<bar>r\<bar> + 1)" using expo_down_spec that(2) by blast
    ultimately show False using that(1) by simp
  qed
  moreover have "0 \<le> expo_up \<bar>r\<bar>" if "1 \<le> \<bar>r\<bar>"
    using expo_up_spec that by blast
  ultimately show ?thesis by (auto simp: expo_def)
qed

lemma expo_upper: "\<bar>r\<bar> < 2 powi (expo r + 1)"
proof (cases "1 \<le> \<bar>r\<bar>")
  case True
  then show ?thesis using expo_up_spec[of "\<bar>r\<bar>"] by (simp add: expo_def)
next
  case False
  show ?thesis
  proof (cases "\<bar>r\<bar> < 2 powi (- 1022)")
    case True
    with False have "expo r = - 1022" by (simp add: expo_def)
    moreover have "(2::real) powi (- 1022) \<le> 2 powi (- 1022 + 1)"
      by (intro power_int_increasing) simp_all
    ultimately show ?thesis using True by simp
  next
    case small: False
    then have "0 < \<bar>r\<bar>" by (cases "r = 0") simp_all
    with False small show ?thesis
      using expo_down_spec[of "\<bar>r\<bar>"] by (simp add: expo_def)
  qed
qed

lemma expo_lower: "2 powi (- 1022) \<le> \<bar>r\<bar> \<Longrightarrow> 2 powi expo r \<le> \<bar>r\<bar>"
proof (cases "1 \<le> \<bar>r\<bar>")
  case True
  then show ?thesis using expo_up_spec[of "\<bar>r\<bar>"] by (simp add: expo_def)
next
  case False
  assume n: "2 powi (- 1022) \<le> \<bar>r\<bar>"
  then have "0 < \<bar>r\<bar>" by (cases "r = 0") simp_all
  with False n show ?thesis
    using expo_down_spec[of "\<bar>r\<bar>"] by (simp add: expo_def)
qed

lemma expo_lower': "- 1022 < expo r \<Longrightarrow> 2 powi expo r \<le> \<bar>r\<bar>"
proof (rule expo_lower, rule ccontr)
  assume e: "- 1022 < expo r" and "\<not> 2 powi (- 1022) \<le> \<bar>r\<bar>"
  then have s: "\<bar>r\<bar> < 2 powi (- 1022)" by simp
  have "(2::real) powi (- 1022) \<le> 1" by simp
  with s have "\<not> 1 \<le> \<bar>r\<bar>" by linarith
  with s have "expo r = - 1022" by (simp add: expo_def)
  with e show False by simp
qed

lemma expo_mono: "\<bar>a\<bar> \<le> \<bar>b\<bar> \<Longrightarrow> expo a \<le> expo b"
proof (rule ccontr)
  assume ab: "\<bar>a\<bar> \<le> \<bar>b\<bar>" and "\<not> expo a \<le> expo b"
  then have lt: "expo b + 1 \<le> expo a" by simp
  with expo_ge[of b] have "- 1022 < expo a" by simp
  then have "2 powi expo a \<le> \<bar>a\<bar>" by (rule expo_lower')
  moreover have "(2::real) powi (expo b + 1) \<le> 2 powi expo a"
    using lt by (intro power_int_increasing) simp_all
  ultimately show False using expo_upper[of b] ab by linarith
qed

lemma quantum_pos: "0 < quantum r"
  by (simp add: quantum_def)

lemma rhe_floor: "\<lfloor>x\<rfloor> \<le> round_half_even x \<and> round_half_even x \<le> \<lfloor>x\<rfloor> + 1"
  by (simp add: round_half_even_def Let_def)

lemma rhe_of_int: "round_half_even (of_int n) = n"
  by (simp add: round_half_even_def Let_def)

lemma rhe_le: "x \<le> of_int n \<Longrightarrow> round_half_even x \<le> n"
proof (cases "x = of_int n")
  case True
  then show ?thesis by (simp add: rhe_of_int)
next
  case False
  assume "x \<le> of_int n"
  with False have "x < of_int n" by simp
  then have "\<lfloor>x\<rfloor> < n" by (simp add: floor_less_iff)
  with rhe_floor[of x] show ?thesis by linarith
qed

lemma rhe_ge: "of_int n \<le> x \<Longrightarrow> n \<le> round_half_even x"
proof -
  assume "of_int n \<le> x"
  then have "n \<le> \<lfloor>x\<rfloor>" by (simp add: le_floor_iff)
  with rhe_floor[of x] show ?thesis by linarith
qed

lemma rhe_mono: "x \<le> y \<Longrightarrow> round_half_even x \<le> round_half_even y"
proof (cases "\<lfloor>x\<rfloor> = \<lfloor>y\<rfloor>")
  case True
  assume "x \<le> y"
  then have "x - of_int \<lfloor>y\<rfloor> \<le> y - of_int \<lfloor>y\<rfloor>" by simp
  then show ?thesis
    unfolding round_half_even_def Let_def True by auto
next
  case False
  assume "x \<le> y"
  then have "\<lfloor>x\<rfloor> \<le> \<lfloor>y\<rfloor>" by (rule floor_mono)
  with False have "\<lfloor>x\<rfloor> + 1 \<le> \<lfloor>y\<rfloor>" by simp
  with rhe_floor[of x] rhe_floor[of y] show ?thesis by linarith
qed

lemma rhe_err: "\<bar>of_int (round_half_even x) - x\<bar> \<le> 1 / 2"
proof -
  have "of_int \<lfloor>x\<rfloor> \<le> x" "x < of_int \<lfloor>x\<rfloor> + 1" by linarith+
  then show ?thesis
    unfolding round_half_even_def Let_def by (auto simp: abs_le_iff)
qed

lemma rhe_above_half: "of_int n + 1 / 2 < x \<Longrightarrow> n + 1 \<le> round_half_even x"
proof (cases "n + 1 \<le> \<lfloor>x\<rfloor>")
  case True
  with rhe_floor[of x] show ?thesis by linarith
next
  case False
  assume h: "of_int n + 1 / 2 < x"
  then have "of_int n \<le> x" by simp
  then have "n \<le> \<lfloor>x\<rfloor>" by (simp add: le_floor_iff)
  with False have f: "\<lfloor>x\<rfloor> = n" by simp
  show ?thesis
    unfolding round_half_even_def Let_def f using h by auto
qed

lemma nearest_le_grid:
  assumes "r \<le> of_int n * quantum r"
  shows "nearest r \<le> of_int n * quantum r"
proof -
  have "r / quantum r \<le> of_int n"
    using assms quantum_pos[of r] by (simp add: pos_divide_le_eq)
  then have "round_half_even (r / quantum r) \<le> n" by (rule rhe_le)
  then have "(of_int (round_half_even (r / quantum r)) :: real) \<le> of_int n" by simp
  then show ?thesis
    unfolding nearest_def using quantum_pos[of r] by (simp add: mult_right_mono)
qed

lemma nearest_ge_grid:
  assumes "of_int n * quantum r \<le> r"
  shows "of_int n * quantum r \<le> nearest r"
proof -
  have "of_int n \<le> r / quantum r"
    using assms quantum_pos[of r] by (simp add: pos_le_divide_eq)
  then have "n \<le> round_half_even (r / quantum r)" by (rule rhe_ge)
  then have "(of_int n :: real) \<le> of_int (round_half_even (r / quantum r))" by simp
  then show ?thesis
    unfolding nearest_def using quantum_pos[of r] by (simp add: mult_right_mono)
qed

lemma pow2_on_grid:
  assumes "expo r - 52 \<le> k"
  shows "\<exists>n::int. 2 powi k = of_int n * quantum r"
proof -
  have "(2::real) powi k = 2 powi (k - (expo r - 52)) * 2 powi (expo r - 52)"
    using power_int_add[of "2::real" "k - (expo r - 52)" "expo r - 52"] by simp
  moreover have "(2::real) powi (k - (expo r - 52)) = of_int (2 ^ nat (k - (expo r - 52)))"
    using assms by (simp add: power_int_def)
  ultimately show ?thesis unfolding quantum_def by metis
qed

lemma nearest_err: "\<bar>nearest r - r\<bar> \<le> quantum r / 2"
proof -
  let ?q = "quantum r"
  have q: "0 < ?q" by (rule quantum_pos)
  have "nearest r - r = (of_int (round_half_even (r / ?q)) - r / ?q) * ?q"
    unfolding nearest_def using q by (simp add: algebra_simps)
  then have "\<bar>nearest r - r\<bar> = \<bar>of_int (round_half_even (r / ?q)) - r / ?q\<bar> * ?q"
    using q by (simp add: abs_mult)
  also have "\<dots> \<le> 1 / 2 * ?q"
    using rhe_err[of "r / ?q"] q by (intro mult_right_mono) simp_all
  finally show ?thesis by simp
qed

lemma nearest_mono:
  assumes "a \<le> b"
  shows "nearest a \<le> nearest b"
proof -
  have zero_a: "(0::real) = of_int 0 * quantum a" and zero_b: "(0::real) = of_int 0 * quantum b"
    by simp_all
  consider "a \<le> 0 \<and> 0 \<le> b" | "0 < a" | "b < 0" using assms by linarith
  then show ?thesis
  proof cases
    case 1
    then have "nearest a \<le> 0" using nearest_le_grid[of a 0] by simp
    moreover have "0 \<le> nearest b" using 1 nearest_ge_grid[of 0 b] by simp
    ultimately show ?thesis by simp
  next
    case 2
    with assms have ab: "\<bar>a\<bar> \<le> \<bar>b\<bar>" by simp
    then have le: "expo a \<le> expo b" by (rule expo_mono)
    show ?thesis
    proof (cases "expo a = expo b")
      case True
      then have q: "quantum a = quantum b" by (simp add: quantum_def)
      have "a / quantum b \<le> b / quantum b"
        using assms quantum_pos[of b] by (simp add: divide_right_mono)
      then have "round_half_even (a / quantum b) \<le> round_half_even (b / quantum b)"
        by (rule rhe_mono)
      then have "(of_int (round_half_even (a / quantum b)) :: real)
                   \<le> of_int (round_half_even (b / quantum b))" by simp
      then show ?thesis
        unfolding nearest_def q using quantum_pos[of b] by (simp add: mult_right_mono)
    next
      case False
      with le have lt: "expo a + 1 \<le> expo b" by simp
      with expo_ge[of a] have "- 1022 < expo b" by simp
      then have Lb: "2 powi expo b \<le> b" using expo_lower'[of b] 2 assms by simp
      have "(2::real) powi (expo a + 1) \<le> 2 powi expo b"
        using lt by (intro power_int_increasing) simp_all
      then have aL: "a \<le> 2 powi expo b" using expo_upper[of a] 2 by simp
      obtain n where n: "2 powi expo b = of_int n * quantum a"
        using pow2_on_grid[of a "expo b"] le by auto
      obtain m where m: "2 powi expo b = of_int m * quantum b"
        using pow2_on_grid[of b "expo b"] by auto
      have "nearest a \<le> 2 powi expo b"
        using nearest_le_grid[of a n] aL n by simp
      moreover have "2 powi expo b \<le> nearest b"
        using nearest_ge_grid[of m b] Lb m by simp
      ultimately show ?thesis by simp
    qed
  next
    case 3
    with assms have ab: "\<bar>b\<bar> \<le> \<bar>a\<bar>" by simp
    then have le: "expo b \<le> expo a" by (rule expo_mono)
    show ?thesis
    proof (cases "expo a = expo b")
      case True
      then have q: "quantum a = quantum b" by (simp add: quantum_def)
      have "a / quantum b \<le> b / quantum b"
        using assms quantum_pos[of b] by (simp add: divide_right_mono)
      then have "round_half_even (a / quantum b) \<le> round_half_even (b / quantum b)"
        by (rule rhe_mono)
      then have "(of_int (round_half_even (a / quantum b)) :: real)
                   \<le> of_int (round_half_even (b / quantum b))" by simp
      then show ?thesis
        unfolding nearest_def q using quantum_pos[of b] by (simp add: mult_right_mono)
    next
      case False
      with le have lt: "expo b + 1 \<le> expo a" by simp
      with expo_ge[of b] have "- 1022 < expo a" by simp
      then have La: "a \<le> - (2 powi expo a)" using expo_lower'[of a] 3 assms by simp
      have "(2::real) powi (expo b + 1) \<le> 2 powi expo a"
        using lt by (intro power_int_increasing) simp_all
      then have bL: "- (2 powi expo a) \<le> b" using expo_upper[of b] 3 by simp
      obtain n where n: "2 powi expo a = of_int n * quantum a"
        using pow2_on_grid[of a "expo a"] by auto
      obtain m where m: "2 powi expo a = of_int m * quantum b"
        using pow2_on_grid[of b "expo a"] le by auto
      have "nearest a \<le> - (2 powi expo a)"
        using nearest_le_grid[of a "- n"] La n by simp
      moreover have "- (2 powi expo a) \<le> nearest b"
        using nearest_ge_grid[of "- m" b] bL m by simp
      ultimately show ?thesis by simp
    qed
  qed
qed

lemma to_double_mono: "a \<le> b \<Longrightarrow> to_double a \<le> to_double b"
  using nearest_mono[of a b] by (simp add: to_double_def Let_def)

lemma to_double_not_NaN: "to_double r \<noteq> NaN"
  by (simp add: to_double_def Let_def)

lemma to_double_0: "to_double 0 = Num 0"
  by (simp add: double_eval)

lemma to_double_Num: "to_double r = Num v \<Longrightarrow> v = nearest r"
  by (simp add: to_double_def Let_def split: if_splits)

subsection \<open>The context primitives\<close>

lemma stack_scale: "stack (scale a b c) = stack c"
  by (cases a; cases b) (simp_all split: prod.splits)


lemma fillStyle_scale: "fillStyle (cur (scale a b c)) = fillStyle (cur c)"
  by (cases a; cases b) (simp_all split: prod.splits)

lemma stack_translate: "stack (translate a b c) = stack c"
  by (cases a; cases b) (simp_all split: prod.splits)


lemma stack_issue: "stack (issue p c) = stack c"
  by (simp add: issue_def)


lemma ops_issue: "ops (issue p c) = ops c @ [p]"
  by (simp add: issue_def ops_def)


lemma toggleHealthBars_twice: "toggleHealthBars (toggleHealthBars r) = r"
  by (simp add: toggleHealthBars_def)

subsection \<open>The loops\<close>


lemma forEach_cong:
  assumes "\<And>i c. i \<in> set ns \<Longrightarrow> f i c = g i c"
  shows "forEach f ns c = forEach g ns c"
  using assms
proof (induction ns arbitrary: c)
  case Nil
  then show ?case by simp
next
  case (Cons i ns)
  have "f i c = g i c" using Cons.prems by simp
  moreover have "\<And>c'. forEach f ns c' = forEach g ns c'"
    using Cons.IH Cons.prems by simp
  ultimately show ?case by (simp split: sum.splits)
qed

lemma forEach_stack:
  assumes "\<And>i c c'. body i c = Inr c' \<Longrightarrow> stack c' = stack c"
  shows "forEach body ns c = Inr c' \<Longrightarrow> stack c' = stack c"
proof (induction ns arbitrary: c)
  case Nil
  then show ?case by simp
next
  case (Cons i ns)
  then show ?case using assms by (auto split: sum.splits)
qed

text \<open>A loop whose body draws \<open>G img i\<close> when the lookup \<open>sp i\<close> gives \<open>img\<close> and raises
  when it gives nothing.\<close>

lemma forEach_all:
  assumes step: "\<And>i c. body i c =
        (case sp i of None \<Rightarrow> Inl (TypeError, c) | Some img \<Rightarrow> Inr (F img i c))"
      and grow: "\<And>img i c. ops (F img i c) = ops c @ G img i"
  shows "map sp ns = map Some sprites \<Longrightarrow>
         \<exists>c'. forEach body ns c = Inr c'
             \<and> ops c' = ops c @ concat (map (\<lambda>(i, img). G img i) (zip ns sprites))"
proof (induction ns arbitrary: sprites c)
  case Nil
  then show ?case by simp
next
  case (Cons i ns)
  from Cons.prems obtain img rest where sprites: "sprites = img # rest"
    and i: "sp i = Some img" and r: "map sp ns = map Some rest"
    by (cases sprites) auto
  from Cons.IH[OF r, of "F img i c"] obtain c' where
    c': "forEach body ns (F img i c) = Inr c'"
    "ops c' = ops (F img i c) @ concat (map (\<lambda>(i, img). G img i) (zip ns rest))"
    by blast
  have "forEach body (i # ns) c = Inr c'"
    using c'(1) by (simp add: step[of i c] i)
  moreover have "ops c' = ops c @ concat (map (\<lambda>(i, img). G img i) (zip (i # ns) sprites))"
    using c'(2) by (simp add: grow sprites)
  ultimately show ?case by blast
qed

lemma forEach_returns:
  assumes step: "\<And>i c. body i c =
        (case sp i of None \<Rightarrow> Inl (TypeError, c) | Some img \<Rightarrow> Inr (F img i c))"
  shows "forEach body ns c = Inr c' \<Longrightarrow> \<exists>sprites. map sp ns = map Some sprites"
proof (induction ns arbitrary: c)
  case Nil
  then show ?case by simp
next
  case (Cons i ns)
  from Cons.prems obtain img where i: "sp i = Some img"
    and f: "forEach body ns (F img i c) = Inr c'"
    by (cases "sp i") (simp_all add: step[of i c])
  from Cons.IH[OF f] obtain rest where "map sp ns = map Some rest" by blast
  with i have "map sp (i # ns) = map Some (img # rest)" by simp
  then show ?case by blast
qed


lemma forEach_drawn:
  assumes step: "\<And>i c. body i c =
        (case sp i of None \<Rightarrow> Inl (TypeError, c) | Some img \<Rightarrow> Inr (F img i c))"
      and grow: "\<And>img i c. ops (F img i c) = ops c @ G img i"
  shows "ops (context_after (forEach body ns c))
           = ops c @ concat (map (\<lambda>(i, img). G img i) (drawn_bodies sp ns))
       \<and> (\<exists>c'. forEach body ns c = Inr c') = (map fst (drawn_bodies sp ns) = ns)"
proof (induction ns arbitrary: c)
  case Nil
  show ?case by (simp add: context_after_def)
next
  case (Cons i ns)
  show ?case
  proof (cases "sp i")
    case None
    then show ?thesis by (simp add: step[of i c] context_after_def)
  next
    case (Some img)
    from Cons.IH[of "F img i c"] show ?thesis
      by (simp add: step[of i c] Some grow)
  qed
qed

lemma zip_upt: "length xs = n \<Longrightarrow> zip [0 ..< n] xs = map (\<lambda>i. (i, xs ! i)) [0 ..< n]"
  by (simp add: list_eq_iff_nth_eq)

lemma fold_stack:
  assumes "\<And>i c. stack (f i c) = stack c"
  shows "stack (fold f ns c) = stack c"
  by (induction ns arbitrary: c) (simp_all add: assms)

lemma fold_ops:
  assumes "\<And>i c. ops (f i c) = ops c @ [g i]"
  shows "ops (fold f ns c) = ops c @ map g ns"
  by (induction ns arbitrary: c) (simp_all add: assms)

subsection \<open>The passes\<close>

lemma stack_drawHealthBar: "stack (drawHealthBar r x y h ty c) = stack c"
  by (simp add: drawHealthBar_def Let_def strokeRect_def fillRect_def issue_def
      set_fillStyle_def set_strokeStyle_def set_lineWidth_def split: option.splits)

lemma ops_drawHealthBar:
  "ops (drawHealthBar r x y h ty c) = ops c @ healthBar_ops r x y h ty"
  by (simp add: drawHealthBar_def healthBar_ops_def Let_def strokeRect_def fillRect_def
      issue_def ops_def set_fillStyle_def set_strokeStyle_def set_lineWidth_def
      split: option.splits)

lemma draw_then_bar:
  "(case drawImage img a b w h c of Inl e \<Rightarrow> Inl e | Inr c1 \<Rightarrow> Inr (F c1)) =
   (case img of None \<Rightarrow> Inl (TypeError, c)
    | Some im \<Rightarrow> Inr (F (issue (DrawImage im a b w h) c)))"
  by (cases img) (simp_all add: drawImage_def)

lemma ops_drawn_at:
  "ops (drawn_at r world p img i c) = ops c @ body_ops r world img i (fst p) (snd p)"
  by (simp add: drawn_at_def body_ops_def Let_def ops_drawHealthBar ops_issue)

lemma stack_drawn_at: "stack (drawn_at r world p img i c) = stack c"
  by (simp add: drawn_at_def Let_def stack_drawHealthBar stack_issue)

lemma renderBodies_body_eq:
  "renderBodies_body r world i c =
     (case sprite r world i of None \<Rightarrow> Inl (TypeError, c)
      | Some img \<Rightarrow> Inr (drawn_at r world (direct_position world i) img i c))"
  unfolding renderBodies_body_def sprite_def drawn_at_def direct_position_def Let_def fst_conv snd_conv
  by (rule draw_then_bar)

lemma renderBodiesInterpolated_body_eq:
  "renderBodiesInterpolated_body r world nextStep t i c =
     (case sprite r world i of None \<Rightarrow> Inl (TypeError, c)
      | Some img \<Rightarrow> Inr (drawn_at r world (lerp_position world nextStep t i) img i c))"
  unfolding renderBodiesInterpolated_body_def sprite_def drawn_at_def lerp_position_def Let_def
    fst_conv snd_conv
  by (rule draw_then_bar)

lemma bodies_loop_all:
  assumes B: "\<And>i c. B i c =
        (case sprite r world i of None \<Rightarrow> Inl (TypeError, c)
         | Some img \<Rightarrow> Inr (drawn_at r world (p i) img i c))"
      and sp: "map (sprite r world) [0 ..< n] = map Some sprites"
  shows "\<exists>c'. forEach B [0 ..< n] c = Inr c'
             \<and> ops c' = ops c @ concat (map (\<lambda>i. body_ops r world (sprites ! i) i
                                               (fst (p i)) (snd (p i))) [0 ..< n])"
proof -
  have len: "length sprites = n"
    using arg_cong[OF sp, of length] by simp
  from forEach_all[where body = B and sp = "sprite r world"
      and F = "\<lambda>img i c. drawn_at r world (p i) img i c"
      and G = "\<lambda>img i. body_ops r world img i (fst (p i)) (snd (p i))"
      and ns = "[0 ..< n]" and sprites = sprites and c = c, OF B ops_drawn_at sp]
  obtain c' where c': "forEach B [0 ..< n] c = Inr c'"
    "ops c' = ops c @ concat (map (\<lambda>(i, img). body_ops r world img i (fst (p i)) (snd (p i)))
                              (zip [0 ..< n] sprites))"
    by blast
  have "map (\<lambda>(i, img). body_ops r world img i (fst (p i)) (snd (p i))) (zip [0 ..< n] sprites)
        = map (\<lambda>i. body_ops r world (sprites ! i) i (fst (p i)) (snd (p i))) [0 ..< n]"
    by (simp add: zip_upt[OF len] comp_def)
  with c' show ?thesis by auto
qed

lemma renderBodies_all:
  assumes "map (sprite r world) [0 ..< body_length (bodies world)] = map Some sprites"
  shows "\<exists>c'. renderBodies r world c = Inr c'
             \<and> ops c' = ops c @ concat (map (\<lambda>i. body_ops r world (sprites ! i) i
                   (fst (direct_position world i)) (snd (direct_position world i)))
                 [0 ..< body_length (bodies world)])"
  unfolding renderBodies_def
  using renderBodies_body_eq assms by (rule bodies_loop_all)

lemma renderBodiesInterpolated_all:
  assumes "map (sprite r world) [0 ..< body_length (bodies world)] = map Some sprites"
  shows "\<exists>c'. renderBodiesInterpolated r world nextStep t c = Inr c'
             \<and> ops c' = ops c @ concat (map (\<lambda>i. body_ops r world (sprites ! i) i
                   (fst (lerp_position world nextStep t i)) (snd (lerp_position world nextStep t i)))
                 [0 ..< body_length (bodies world)])"
  unfolding renderBodiesInterpolated_def
  using renderBodiesInterpolated_body_eq assms by (rule bodies_loop_all)

lemma renderBodiesInterpolated_drawn:
  "ops (context_after (renderBodiesInterpolated r world nextStep t c))
     = ops c @ concat (map (\<lambda>(i, img). body_ops r world img i
                              (fst (lerp_position world nextStep t i))
                              (snd (lerp_position world nextStep t i)))
                (drawn_bodies (sprite r world) [0 ..< body_length (bodies world)]))
   \<and> (\<exists>c'. renderBodiesInterpolated r world nextStep t c = Inr c')
       = (map fst (drawn_bodies (sprite r world) [0 ..< body_length (bodies world)])
            = [0 ..< body_length (bodies world)])"
  unfolding renderBodiesInterpolated_def
  using renderBodiesInterpolated_body_eq ops_drawn_at
  by (rule forEach_drawn[where F = "\<lambda>img i c. drawn_at r world (lerp_position world nextStep t i) img i c"
        and G = "\<lambda>img i. body_ops r world img i (fst (lerp_position world nextStep t i))
                          (snd (lerp_position world nextStep t i))"])


lemma renderBodies_returns:
  "renderBodies r world c = Inr c'
   \<Longrightarrow> \<exists>sprites. map (sprite r world) [0 ..< body_length (bodies world)] = map Some sprites"
  unfolding renderBodies_def
  using renderBodies_body_eq by (rule forEach_returns)

lemma renderBodiesInterpolated_returns:
  "renderBodiesInterpolated r world nextStep t c = Inr c'
   \<Longrightarrow> \<exists>sprites. map (sprite r world) [0 ..< body_length (bodies world)] = map Some sprites"
  unfolding renderBodiesInterpolated_def
  using renderBodiesInterpolated_body_eq by (rule forEach_returns)

lemma stack_renderBodies_body: "renderBodies_body r w i c = Inr c' \<Longrightarrow> stack c' = stack c"
  by (auto simp: renderBodies_body_eq stack_drawn_at split: option.splits)

lemma stack_renderBodiesInterpolated_body:
  "renderBodiesInterpolated_body r w ns t i c = Inr c' \<Longrightarrow> stack c' = stack c"
  by (auto simp: renderBodiesInterpolated_body_eq stack_drawn_at split: option.splits)

lemma stack_renderBullets_body: "stack (renderBullets_body r w t i c) = stack c"
  by (simp add: renderBullets_body_def Let_def stack_issue)

lemma ops_renderBullets_body:
  "ops (renderBullets_body r world t i c) = ops c @ [bullet_op r world t i]"
  by (simp add: renderBullets_body_def bullet_op_def bullet_sprite_def bullet_position_def
      Let_def ops_issue)

lemma stack_renderBullets: "stack (renderBullets r w t c) = stack c"
  by (simp add: renderBullets_def fold_stack stack_renderBullets_body)

lemma ops_renderBullets:
  "ops (renderBullets r world t c)
     = ops c @ map (bullet_op r world t) [0 ..< bullet_length (bullets world)]"
  unfolding renderBullets_def by (rule fold_ops) (rule ops_renderBullets_body)

lemma renderIndicatorStrings_eq:
  "renderIndicatorStrings w c = set_lineWidth INDICATOR_LINE_WIDTH c"
  by (simp add: renderIndicatorStrings_def)

lemma renderBackground_state:
  "cur (renderBackground r w c) = cur c \<and> stack (renderBackground r w c) = stack c"
  by (simp add: renderBackground_def Let_def restore_def save_def fillRect_def stack_issue
      stack_scale set_fillStyle_def)


lemmas render_eval =
  render_def renderBackground_def renderBullets_def renderBullets_body_def
  renderBodies_def renderBodies_body_def renderBodiesInterpolated_def
  renderBodiesInterpolated_body_def renderIndicatorStrings_def drawHealthBar_def drawImage_def
  fillRect_def strokeRect_def issue_def set_fillStyle_def set_strokeStyle_def set_lineWidth_def
  save_def restore_def context_after_def ops_def elemAt_def numAt_def property_def
  BULLET_SIZE_def BULLET_SIZE_HALF_def HEALTH_BAR_WIDTH_def HEALTH_BAR_WIDTH_HALF_def
  HIGH_SPEED_THRESH_def MED_SPEED_THRESH_def upt_rec

lemmas world_eval =
  world0_def next0_def next_nan_def world_gap_def renderer0_def renderer_zero_def imgs0_def
  schema0_def metadata0_def ctx0_def state0_def view0_def

subsection \<open>The claims of the specification\<close>

lemma lerp_zero: "steady x nextX \<Longrightarrow> x + (nextX - x) * Num 0 = x"
proof -
  assume s: "steady x nextX"
  then obtain a where a: "x = Num a" "to_double a = Num a"
    by (cases x) (simp_all add: steady_def)
  from s a obtain d where d: "nextX - Num a = Num d"
    by (cases "nextX - Num a") (simp_all add: steady_def)
  show ?thesis by (simp add: a d to_double_0)
qed

text \<open>
  Claim C1 as stated fails: the next step \<open>next_nan\<close> has an x and a y entry for each of the
  two bodies of \<open>world0\<close> (matching indexing), the x entry of body 0 being NaN. At factor 0
  the interpolated pass computes \<open>0 + (NaN - 0) * 0\<close>, which is NaN, and draws the sprite and
  the health bar of body 0 at x = NaN, where the non-interpolated pass draws them at
  x = -2 and x = -1.
\<close>

theorem interpolation_counterexample:
  "length (body_x (next_bodies next_nan)) = body_length (bodies world0)
   \<and> length (body_y (next_bodies next_nan)) = body_length (bodies world0)
   \<and> ops (context_after (renderBodiesInterpolated renderer0 world0 next_nan (Num 0) ctx0)) =
       [DrawImage ''archon0'' NaN (Num (- 2)) (Num 4) (Num 4),
        FillRect NaN (Num 2) (Num 1) HEALTH_BAR_HEIGHT,
        StrokeRect NaN (Num 2) (Num 2) HEALTH_BAR_HEIGHT,
        DrawImage ''unknown'' (Num 2) (Num 3) (Num 2) (Num 2)]
   \<and> ops (context_after (renderBodies renderer0 world0 ctx0)) =
       [DrawImage ''archon0'' (Num (- 2)) (Num (- 2)) (Num 4) (Num 4),
        FillRect (Num (- 1)) (Num 2) (Num 1) HEALTH_BAR_HEIGHT,
        StrokeRect (Num (- 1)) (Num 2) (Num 2) HEALTH_BAR_HEIGHT,
        DrawImage ''unknown'' (Num 2) (Num 3) (Num 2) (Num 2)]"
  by (simp add: render_eval world_eval double_eval)

lemma lerp_position_zero:
  assumes "steady (numAt (body_x (bodies world)) i) (numAt (body_x (next_bodies nextStep)) i)"
      and "steady (numAt (body_y (bodies world)) i) (numAt (body_y (next_bodies nextStep)) i)"
  shows "lerp_position world nextStep (Num 0) i = direct_position world i"
  by (simp add: lerp_position_def direct_position_def lerp_zero[OF assms(1)] lerp_zero[OF assms(2)])

text \<open>
  Claim C1, amended. When for every body index the current x and y are finite doubles
  and the differences to the next step's x and y, as the code computes them, are finite
  (so the next step has an entry for the body, no entry is NaN or an infinity, and the
  subtraction does not overflow), the interpolated pass at factor 0 is the
  non-interpolated pass: the same result on every context, hence the same calls at the
  same positions for sprite and health bar; and \<open>render\<close> with the next step and factor 0 is
  \<open>render\<close> without them, for every view.
\<close>

theorem interpolation_identity_at_zero:
  assumes "\<forall>i < body_length (bodies world).
             steady (numAt (body_x (bodies world)) i) (numAt (body_x (next_bodies nextStep)) i)
           \<and> steady (numAt (body_y (bodies world)) i) (numAt (body_y (next_bodies nextStep)) i)"
  shows "renderBodiesInterpolated r world nextStep (Num 0) c = renderBodies r world c
       \<and> render r world viewMin viewWidth (Some nextStep) (Some (Num 0)) c
         = render r world viewMin viewWidth None None c"
proof -
  have body: "renderBodiesInterpolated_body r world nextStep (Num 0) i c'
                = renderBodies_body r world i c'"
    if "i \<in> set [0 ..< body_length (bodies world)]" for i c'
  proof -
    from that assms have
      "steady (numAt (body_x (bodies world)) i) (numAt (body_x (next_bodies nextStep)) i)"
      "steady (numAt (body_y (bodies world)) i) (numAt (body_y (next_bodies nextStep)) i)"
      by simp_all
    then have "lerp_position world nextStep (Num 0) i = direct_position world i"
      by (rule lerp_position_zero)
    then show ?thesis
      by (simp add: renderBodiesInterpolated_body_eq renderBodies_body_eq split: option.splits)
  qed
  have eq: "\<And>c. renderBodiesInterpolated r world nextStep (Num 0) c = renderBodies r world c"
    unfolding renderBodiesInterpolated_def renderBodies_def
    by (rule forEach_cong) (rule body)
  show ?thesis by (simp add: eq render_def)
qed

theorem interpolation_identity_at_zero_witness:
  "body_length (bodies world0) = 2
   \<and> steady (numAt (body_x (bodies world0)) 0) (numAt (body_x (next_bodies next0)) 0)
   \<and> steady (numAt (body_y (bodies world0)) 0) (numAt (body_y (next_bodies next0)) 0)
   \<and> steady (numAt (body_x (bodies world0)) 1) (numAt (body_x (next_bodies next0)) 1)
   \<and> steady (numAt (body_y (bodies world0)) 1) (numAt (body_y (next_bodies next0)) 1)
   \<and> renderBodiesInterpolated renderer0 world0 next0 (Num 0) ctx0 = renderBodies renderer0 world0 ctx0
   \<and> render renderer0 world0 view0 (Num 20) (Some next0) (Some (Num 0)) ctx0
       = render renderer0 world0 view0 (Num 20) None None ctx0"
proof -
  have len: "body_length (bodies world0) = 2" by (simp add: world0_def)
  have s: "steady (numAt (body_x (bodies world0)) 0) (numAt (body_x (next_bodies next0)) 0)"
      "steady (numAt (body_y (bodies world0)) 0) (numAt (body_y (next_bodies next0)) 0)"
      "steady (numAt (body_x (bodies world0)) 1) (numAt (body_x (next_bodies next0)) 1)"
      "steady (numAt (body_y (bodies world0)) 1) (numAt (body_y (next_bodies next0)) 1)"
    by (simp_all add: world0_def next0_def steady_def numAt_def elemAt_def double_eval)
  have h: "\<forall>i < body_length (bodies world0).
       steady (numAt (body_x (bodies world0)) i) (numAt (body_x (next_bodies next0)) i)
     \<and> steady (numAt (body_y (bodies world0)) i) (numAt (body_y (next_bodies next0)) i)"
  proof (intro allI impI)
    fix i
    assume "i < body_length (bodies world0)"
    with len have "i = 0 \<or> i = 1" by auto
    with s show "steady (numAt (body_x (bodies world0)) i) (numAt (body_x (next_bodies next0)) i)
     \<and> steady (numAt (body_y (bodies world0)) i) (numAt (body_y (next_bodies next0)) i)"
      by auto
  qed
  from interpolation_identity_at_zero[OF h, of renderer0 ctx0 view0 "Num 20"] len s
  show ?thesis by blast
qed

text \<open>
  Claim C2. The calls \<open>renderBodiesInterpolated\<close> issues are, for every body it draws in
  index order, the sprite and the health bar drawn from the position
  \<open>(x[i] + (nextX[i] - x[i]) * t, y[i] + (nextY[i] - y[i]) * t)\<close>, every operation being the
  double one. It draws every body, and returns, exactly when every body has a sprite;
  otherwise it draws the bodies before the first one without a sprite and raises there.
  For t = 0.5 and a body going from (0,0) to (10,0) the position is (5,0).
\<close>

theorem interpolated_draw_position:
  "ops (context_after (renderBodiesInterpolated r world nextStep t c))
     = ops c @ concat (map (\<lambda>(i, img). body_ops r world img i
                  (numAt (body_x (bodies world)) i
                     + (numAt (body_x (next_bodies nextStep)) i - numAt (body_x (bodies world)) i) * t)
                  (numAt (body_y (bodies world)) i
                     + (numAt (body_y (next_bodies nextStep)) i - numAt (body_y (bodies world)) i) * t))
                (drawn_bodies (sprite r world) [0 ..< body_length (bodies world)]))
   \<and> (\<exists>c'. renderBodiesInterpolated r world nextStep t c = Inr c')
       = (map fst (drawn_bodies (sprite r world) [0 ..< body_length (bodies world)])
            = [0 ..< body_length (bodies world)])
   \<and> Num 0 + (Num 10 - Num 0) * Num 0.5 = Num 5
   \<and> Num 0 + (Num 0 - Num 0) * Num 0.5 = Num 0"
proof -
  have "Num 0 + (Num 10 - Num 0) * Num 0.5 = Num 5" "Num 0 + (Num 0 - Num 0) * Num 0.5 = Num 0"
    by (simp_all add: double_eval)
  with renderBodiesInterpolated_drawn[of r world nextStep t c] show ?thesis
    by (simp add: lerp_position_def)
qed

theorem interpolated_draw_position_witness:
  "drawn_bodies (sprite renderer0 world0) [0 ..< body_length (bodies world0)]
     = [(0, ''archon0''), (1, ''unknown'')]
   \<and> (\<exists>c'. renderBodiesInterpolated renderer0 world0 next0 (Num 0.5) ctx0 = Inr c')
   \<and> ops (context_after (renderBodiesInterpolated renderer0 world0 next0 (Num 0.5) ctx0)) =
       [DrawImage ''archon0'' (Num (5 - 2)) (Num (0 - 2)) (Num 4) (Num 4),
        FillRect (Num (5 - 1)) (Num (0 + 2)) (Num 1) HEALTH_BAR_HEIGHT,
        StrokeRect (Num (5 - 1)) (Num (0 + 2)) (Num 2) HEALTH_BAR_HEIGHT,
        DrawImage ''unknown'' (Num (3 - 1)) (Num (4 - 1)) (Num 2) (Num 2)]"
proof -
  have d: "drawn_bodies (sprite renderer0 world0) [0 ..< body_length (bodies world0)]
     = [(0, ''archon0''), (1, ''unknown'')]"
    by (simp add: sprite_def world_eval elemAt_def property_def upt_rec)
  note t = interpolated_draw_position[of renderer0 world0 next0 "Num 0.5" ctx0]
  have len: "[0 ..< body_length (bodies world0)] = [0, 1]"
    by (simp add: world0_def upt_rec)
  from t have "(\<exists>c'. renderBodiesInterpolated renderer0 world0 next0 (Num 0.5) ctx0 = Inr c')
       = (map fst (drawn_bodies (sprite renderer0 world0) [0 ..< body_length (bodies world0)])
            = [0 ..< body_length (bodies world0)])"
    by blast
  then have r: "\<exists>c'. renderBodiesInterpolated renderer0 world0 next0 (Num 0.5) ctx0 = Inr c'"
    unfolding d by (simp add: len)
  have "ops (context_after (renderBodiesInterpolated renderer0 world0 next0 (Num 0.5) ctx0)) =
       [DrawImage ''archon0'' (Num (5 - 2)) (Num (0 - 2)) (Num 4) (Num 4),
        FillRect (Num (5 - 1)) (Num (0 + 2)) (Num 1) HEALTH_BAR_HEIGHT,
        StrokeRect (Num (5 - 1)) (Num (0 + 2)) (Num 2) HEALTH_BAR_HEIGHT,
        DrawImage ''unknown'' (Num (3 - 1)) (Num (4 - 1)) (Num 2) (Num 2)]"
    unfolding t[THEN conjunct1] d
    by (simp add: body_ops_def healthBar_ops_def world_eval ops_def numAt_def elemAt_def
        property_def HEALTH_BAR_WIDTH_def HEALTH_BAR_WIDTH_HALF_def double_eval)
  with d r show ?thesis by blast
qed

text \<open>
  Claim C3. \<open>renderBullets\<close> issues one \<open>drawImage\<close> per bullet, in index order, centred on
  \<open>(x[i] + velX[i] * dt, y[i] + velY[i] * dt)\<close> with \<open>dt = (turn + t) - spawnedTime[i]\<close>, every
  operation being the double one (the corner passed to \<open>drawImage\<close> is half the bullet size
  before the centre on both axes). For spawnedTime 0, velocity (2,0), turn 3 and t = 0
  the displacement is 6 on x and 0 on y: the position is \<open>(x0 + 6, y0)\<close>, the sum being the
  double sum, for every x0 and every y0 that is a double, an infinity or NaN.
\<close>

theorem bullet_extrapolation:
  "ops (renderBullets r world t c) =
     ops c @ map (\<lambda>i. DrawImage
                   (bullet_sprite r (numAt (bullet_velX (bullets world)) i)
                      (numAt (bullet_velY (bullets world)) i))
                   (numAt (bullet_x (bullets world)) i
                      + numAt (bullet_velX (bullets world)) i
                        * ((turn world + t) - numAt (bullet_spawnedTime (bullets world)) i)
                    - BULLET_SIZE_HALF)
                   (numAt (bullet_y (bullets world)) i
                      + numAt (bullet_velY (bullets world)) i
                        * ((turn world + t) - numAt (bullet_spawnedTime (bullets world)) i)
                    - BULLET_SIZE_HALF)
                   BULLET_SIZE BULLET_SIZE)
             [0 ..< bullet_length (bullets world)]
   \<and> (\<forall>x0. x0 + Num 2 * ((Num 3 + Num 0) - Num 0) = x0 + Num 6)
   \<and> (\<forall>y0. double y0 \<longrightarrow> y0 + Num 0 * ((Num 3 + Num 0) - Num 0) = y0)"
proof -
  have a: "Num 2 * ((Num 3 + Num 0) - Num 0) = Num 6" "Num 0 * ((Num 3 + Num 0) - Num 0) = Num 0"
    by (simp_all add: double_eval)
  have "y0 + Num 0 = y0" if "double y0" for y0
    using that by (cases y0) simp_all
  with a ops_renderBullets[of r world t c] show ?thesis
    by (simp add: bullet_op_def bullet_position_def Let_def)
qed

theorem bullet_extrapolation_witness:
  "double (Num 1)
   \<and> Num 1 + Num 0 * ((Num 3 + Num 0) - Num 0) = Num 1
   \<and> Num 1 + Num 2 * ((Num 3 + Num 0) - Num 0) = Num 1 + Num 6
   \<and> ops (renderBullets renderer0 world0 (Num 0) ctx0) =
       [DrawImage ''fast'' (Num (1 + 6 - 0.125)) (Num (1 - 0.125)) (Num 0.25) (Num 0.25),
        DrawImage ''medium'' (Num (2 - 0.125)) (Num 2 + to_double 1.999 * Num 2 - Num 0.125)
          (Num 0.25) (Num 0.25)]"
proof -
  have d: "double (Num 1)" by (simp add: double_eval)
  note t = bullet_extrapolation[of renderer0 world0 "Num 0" ctx0]
  from t d have y: "Num 1 + Num 0 * ((Num 3 + Num 0) - Num 0) = Num 1" by blast
  from t have x: "Num 1 + Num 2 * ((Num 3 + Num 0) - Num 0) = Num 1 + Num 6" by blast
  have "ops (renderBullets renderer0 world0 (Num 0) ctx0) =
       [DrawImage ''fast'' (Num (1 + 6 - 0.125)) (Num (1 - 0.125)) (Num 0.25) (Num 0.25),
        DrawImage ''medium'' (Num (2 - 0.125)) (Num 2 + to_double 1.999 * Num 2 - Num 0.125)
          (Num 0.25) (Num 0.25)]"
    unfolding t[THEN conjunct1]
    by (simp add: bullet_sprite_def world_eval ops_def numAt_def elemAt_def
        BULLET_SIZE_def BULLET_SIZE_HALF_def HIGH_SPEED_THRESH_def MED_SPEED_THRESH_def
        upt_rec double_eval)
  with d x y show ?thesis by blast
qed

lemma to_double_near:
  assumes "\<bar>r\<bar> \<le> 8"
  shows "\<exists>v. to_double r = Num v \<and> \<bar>v - r\<bar> \<le> 2 powi (- 50)"
proof -
  have "expo 8 = 3" by (simp add: expo_def expo_up.simps)
  moreover have "expo r \<le> expo 8" using assms by (intro expo_mono) simp
  ultimately have "expo r - 52 \<le> - 49" by simp
  then have "quantum r \<le> 2 powi (- 49)"
    unfolding quantum_def by (intro power_int_increasing) simp_all
  with nearest_err[of r] have e: "\<bar>nearest r - r\<bar> \<le> 2 powi (- 50)" by simp
  have small: "(2::real) powi (- 50) \<le> 1" by simp
  have "\<bar>nearest r\<bar> \<le> 9" using e assms small by linarith
  then have "nearest r < 2 ^ 1024" "- (2 ^ 1024) < nearest r" by simp_all
  then have "to_double r = Num (nearest r)"
    by (simp add: to_double_def Let_def)
  with e show ?thesis by blast
qed

text \<open>The squared speed the loop computes is within 3 * 2 powi -50 of the exact one.\<close>

lemma speedsq_near:
  assumes "vx * vx + vy * vy \<le> 4"
  shows "\<exists>s. Num vx * Num vx + Num vy * Num vy = Num s
           \<and> \<bar>s - (vx * vx + vy * vy)\<bar> \<le> 3 * 2 powi (- 50)"
proof -
  have nn: "0 \<le> vx * vx" "0 \<le> vy * vy" by simp_all
  with assms have b: "\<bar>vx * vx\<bar> \<le> 8" "\<bar>vy * vy\<bar> \<le> 8" by linarith+
  from to_double_near[OF b(1)] obtain a where
    a: "to_double (vx * vx) = Num a" "\<bar>a - vx * vx\<bar> \<le> 2 powi (- 50)" by blast
  from to_double_near[OF b(2)] obtain b' where
    b': "to_double (vy * vy) = Num b'" "\<bar>b' - vy * vy\<bar> \<le> 2 powi (- 50)" by blast
  have small: "(2::real) powi (- 50) \<le> 1" by simp
  have "\<bar>a + b'\<bar> \<le> 8" using a(2) b'(2) nn assms small by linarith
  from to_double_near[OF this] obtain s where
    s: "to_double (a + b') = Num s" "\<bar>s - (a + b')\<bar> \<le> 2 powi (- 50)" by blast
  have "Num vx * Num vx + Num vy * Num vy = Num s" by (simp add: a b' s)
  moreover have "\<bar>s - (vx * vx + vy * vy)\<bar> \<le> 3 * 2 powi (- 50)"
    using a(2) b'(2) s(2) by linarith
  ultimately show ?thesis by blast
qed

lemma HIGH_SPEED_THRESH_value:
  "HIGH_SPEED_THRESH = Num (9007176736742855 / 2251799813685248)"
  by (simp add: HIGH_SPEED_THRESH_def double_eval)

lemma MED_SPEED_THRESH_value:
  "MED_SPEED_THRESH = Num (5066527062793671 / 2251799813685248)"
  by (simp add: MED_SPEED_THRESH_def double_eval)

lemma square_of_magnitude:
  assumes "sqrt (a * a + b * b) = m"
  shows "a * a + b * b = m * m"
proof -
  have "0 \<le> a * a + b * b" by simp
  then have "(sqrt (a * a + b * b))\<^sup>2 = a * a + b * b" by (rule real_sqrt_pow2)
  then show ?thesis using assms by (simp add: power2_eq_square)
qed

lemma square_between:
  assumes "lo \<le> sqrt (a * a + b * b)" "sqrt (a * a + b * b) \<le> hi" "0 \<le> lo"
  shows "lo * lo \<le> a * a + b * b \<and> a * a + b * b \<le> hi * hi"
proof -
  define m where "m = sqrt (a * a + b * b)"
  have s: "a * a + b * b = m * m" using square_of_magnitude[of a b m] by (simp add: m_def)
  have "0 \<le> m" by (simp add: m_def)
  with assms have "lo * lo \<le> m * m" "m * m \<le> hi * hi"
    unfolding m_def[symmetric] by (simp_all add: mult_mono)
  with s show ?thesis by simp
qed

text \<open>
  Claim C4. For every bullet \<open>renderBullets\<close> draws the fast sprite when the squared speed
  \<open>velX * velX + velY * velY\<close>, computed in doubles, is greater than or equal to
  \<open>HIGH_SPEED_THRESH\<close>, else the medium sprite when it is greater than or equal to
  \<open>MED_SPEED_THRESH\<close>, else the slow sprite. The two thresholds are finite doubles within
  \<open>1 / 10 ^ 15\<close> of 4 - 0.00001 and of 2.25 - 0.00001. A velocity of magnitude 2 gives the
  fast sprite; a velocity of magnitude between 1.5 and 1.9999, so also 1.999, gives the
  medium sprite and not the fast one.
\<close>

theorem bullet_sprite_tier:
  "ops (renderBullets r world t c) =
     ops c @ map (\<lambda>i. DrawImage
                   (if HIGH_SPEED_THRESH
                         \<le> numAt (bullet_velX (bullets world)) i * numAt (bullet_velX (bullets world)) i
                           + numAt (bullet_velY (bullets world)) i * numAt (bullet_velY (bullets world)) i
                    then bullet_fast (imgs r)
                    else if MED_SPEED_THRESH
                         \<le> numAt (bullet_velX (bullets world)) i * numAt (bullet_velX (bullets world)) i
                           + numAt (bullet_velY (bullets world)) i * numAt (bullet_velY (bullets world)) i
                    then bullet_medium (imgs r)
                    else bullet_slow (imgs r))
                   (fst (bullet_position world t i) - BULLET_SIZE_HALF)
                   (snd (bullet_position world t i) - BULLET_SIZE_HALF)
                   BULLET_SIZE BULLET_SIZE)
             [0 ..< bullet_length (bullets world)]
   \<and> (\<exists>h. HIGH_SPEED_THRESH = Num h \<and> \<bar>h - (4 - 0.00001)\<bar> \<le> 1 / 10 ^ 15)
   \<and> (\<exists>m. MED_SPEED_THRESH = Num m \<and> \<bar>m - (2.25 - 0.00001)\<bar> \<le> 1 / 10 ^ 15)
   \<and> (\<forall>vx vy. sqrt (vx * vx + vy * vy) = 2
         \<longrightarrow> HIGH_SPEED_THRESH \<le> Num vx * Num vx + Num vy * Num vy)
   \<and> (\<forall>vx vy. 1.5 \<le> sqrt (vx * vx + vy * vy) \<and> sqrt (vx * vx + vy * vy) \<le> 1.9999
         \<longrightarrow> MED_SPEED_THRESH \<le> Num vx * Num vx + Num vy * Num vy
           \<and> \<not> HIGH_SPEED_THRESH \<le> Num vx * Num vx + Num vy * Num vy)"
proof -
  have eps: "3 * (2::real) powi (- 50) \<le> 1 / 10 ^ 14" by simp
  have loop: "ops (renderBullets r world t c) =
     ops c @ map (\<lambda>i. DrawImage
                   (if HIGH_SPEED_THRESH
                         \<le> numAt (bullet_velX (bullets world)) i * numAt (bullet_velX (bullets world)) i
                           + numAt (bullet_velY (bullets world)) i * numAt (bullet_velY (bullets world)) i
                    then bullet_fast (imgs r)
                    else if MED_SPEED_THRESH
                         \<le> numAt (bullet_velX (bullets world)) i * numAt (bullet_velX (bullets world)) i
                           + numAt (bullet_velY (bullets world)) i * numAt (bullet_velY (bullets world)) i
                    then bullet_medium (imgs r)
                    else bullet_slow (imgs r))
                   (fst (bullet_position world t i) - BULLET_SIZE_HALF)
                   (snd (bullet_position world t i) - BULLET_SIZE_HALF)
                   BULLET_SIZE BULLET_SIZE)
             [0 ..< bullet_length (bullets world)]"
    using ops_renderBullets[of r world t c] by (simp add: bullet_op_def bullet_sprite_def)
  have high: "\<exists>h. HIGH_SPEED_THRESH = Num h \<and> \<bar>h - (4 - 0.00001)\<bar> \<le> 1 / 10 ^ 15"
    unfolding HIGH_SPEED_THRESH_value by (intro exI conjI) (rule refl, simp)
  have med: "\<exists>m. MED_SPEED_THRESH = Num m \<and> \<bar>m - (2.25 - 0.00001)\<bar> \<le> 1 / 10 ^ 15"
    unfolding MED_SPEED_THRESH_value by (intro exI conjI) (rule refl, simp)
  have fast: "HIGH_SPEED_THRESH \<le> Num vx * Num vx + Num vy * Num vy"
    if "sqrt (vx * vx + vy * vy) = 2" for vx vy
  proof -
    from that have sq: "vx * vx + vy * vy = 4" using square_of_magnitude[of vx vy 2] by simp
    then obtain s where s: "Num vx * Num vx + Num vy * Num vy = Num s"
      "\<bar>s - (vx * vx + vy * vy)\<bar> \<le> 3 * 2 powi (- 50)"
      using speedsq_near[of vx vy] by auto
    with eps sq have "4 - 1 / 10 ^ 14 \<le> s" by linarith
    then show ?thesis unfolding s(1) HIGH_SPEED_THRESH_value by simp
  qed
  have medium: "MED_SPEED_THRESH \<le> Num vx * Num vx + Num vy * Num vy
           \<and> \<not> HIGH_SPEED_THRESH \<le> Num vx * Num vx + Num vy * Num vy"
    if "1.5 \<le> sqrt (vx * vx + vy * vy) \<and> sqrt (vx * vx + vy * vy) \<le> 1.9999" for vx vy
  proof -
    from that have sq: "1.5 * 1.5 \<le> vx * vx + vy * vy" "vx * vx + vy * vy \<le> 1.9999 * 1.9999"
      using square_between[of "1.5" vx vy "1.9999"] by simp_all
    then have "vx * vx + vy * vy \<le> 4" by simp
    then obtain s where s: "Num vx * Num vx + Num vy * Num vy = Num s"
      "\<bar>s - (vx * vx + vy * vy)\<bar> \<le> 3 * 2 powi (- 50)"
      using speedsq_near[of vx vy] by auto
    with eps sq have "1.5 * 1.5 - 1 / 10 ^ 14 \<le> s" "s \<le> 1.9999 * 1.9999 + 1 / 10 ^ 14"
      by linarith+
    then show ?thesis unfolding s(1) HIGH_SPEED_THRESH_value MED_SPEED_THRESH_value by simp
  qed
  from loop high med fast medium show ?thesis by blast
qed

theorem bullet_sprite_tier_witness:
  "sqrt (2 * 2 + 0 * 0) = (2::real)
   \<and> HIGH_SPEED_THRESH \<le> Num 2 * Num 2 + Num 0 * Num 0
   \<and> 1.5 \<le> sqrt (0 * 0 + 1.999 * 1.999) \<and> sqrt (0 * 0 + 1.999 * 1.999) \<le> (1.9999::real)
   \<and> MED_SPEED_THRESH \<le> Num 0 * Num 0 + Num 1.999 * Num 1.999
   \<and> \<not> HIGH_SPEED_THRESH \<le> Num 0 * Num 0 + Num 1.999 * Num 1.999
   \<and> map (\<lambda>p. case p of DrawImage img x y w h \<Rightarrow> img | _ \<Rightarrow> '''')
       (ops (renderBullets renderer0 world0 (Num 0) ctx0)) = [''fast'', ''medium'']"
proof -
  note t = bullet_sprite_tier[of renderer0 world0 "Num 0" ctx0]
  have s2: "sqrt (2 * 2 + 0 * 0) = (2::real)" by simp
  have s1999: "sqrt (0 * 0 + 1.999 * 1.999) = (1.999::real)"
    using real_sqrt_abs2[of "1.999"] by simp
  then have band: "1.5 \<le> sqrt (0 * 0 + 1.999 * 1.999) \<and> sqrt (0 * 0 + 1.999 * 1.999) \<le> (1.9999::real)"
    by simp
  from t s2 have fast: "HIGH_SPEED_THRESH \<le> Num 2 * Num 2 + Num 0 * Num 0" by blast
  from t band have medium: "MED_SPEED_THRESH \<le> Num 0 * Num 0 + Num 1.999 * Num 1.999
     \<and> \<not> HIGH_SPEED_THRESH \<le> Num 0 * Num 0 + Num 1.999 * Num 1.999" by blast
  have "map (\<lambda>p. case p of DrawImage img x y w h \<Rightarrow> img | _ \<Rightarrow> '''')
       (ops (renderBullets renderer0 world0 (Num 0) ctx0)) = [''fast'', ''medium'']"
    unfolding t[THEN conjunct1]
    by (simp add: world_eval ops_def numAt_def elemAt_def HIGH_SPEED_THRESH_def
        MED_SPEED_THRESH_def upt_rec double_eval)
  with s2 band fast medium show ?thesis by blast
qed

text \<open>
  Claim C5. For a type code without an entry in the metadata table, \<open>drawHealthBar\<close>
  returns the context as it was: no call is issued, no style is set, nothing is raised
  (the result is a context, not an error), whatever the position and the health.
\<close>

theorem drawHealthBar_without_metadata:
  assumes "property (types (metadata r)) type = None"
  shows "drawHealthBar r x y health type c = c"
  using assms by (simp add: drawHealthBar_def)

theorem drawHealthBar_without_metadata_witness:
  "property (types (metadata renderer0)) (Some 99) = None
   \<and> drawHealthBar renderer0 (Num 2) (Num 5) (Num 10) (Some 99) ctx0 = ctx0"
proof -
  have h: "property (types (metadata renderer0)) (Some 99) = None"
    by (simp add: renderer0_def metadata0_def property_def)
  from drawHealthBar_without_metadata[OF h] h show ?thesis by blast
qed






lemma render_returns:
  assumes "map (sprite r world) [0 ..< body_length (bodies world)] = map Some sprites"
  shows "\<exists>c'. render r world viewMin viewWidth nextStep lerpAmount c = Inr c'"
proof -
  have "\<exists>c5. renderBodies r world c4 = Inr c5" for c4
    using renderBodies_all[OF assms] by blast
  moreover have "\<exists>c5. renderBodiesInterpolated r world ns t c4 = Inr c5" for ns t c4
    using renderBodiesInterpolated_all[OF assms] by blast
  ultimately have "\<exists>c5. (case (lerpAmount, nextStep) of
               (Some lerpAmount', Some nextStep') \<Rightarrow>
                 renderBodiesInterpolated r world nextStep' lerpAmount'
                   (renderBullets r world lerpAmount' c4)
             | _ \<Rightarrow> renderBodies r world (renderBullets r world (Num 0) c4)) = Inr c5" for c4
    by (cases lerpAmount; cases nextStep) simp_all
  then obtain c5 where "(case (lerpAmount, nextStep) of
               (Some lerpAmount', Some nextStep') \<Rightarrow>
                 renderBodiesInterpolated r world nextStep' lerpAmount'
                   (renderBullets r world lerpAmount'
                      (renderBackground r world
                         (translate (- vec_x viewMin) (- vec_y viewMin)
                            (scale (Num (real (canvas_width r)) / viewWidth)
                               (Num (real (canvas_width r)) / viewWidth) (save c)))))
             | _ \<Rightarrow> renderBodies r world (renderBullets r world (Num 0)
                      (renderBackground r world
                         (translate (- vec_x viewMin) (- vec_y viewMin)
                            (scale (Num (real (canvas_width r)) / viewWidth)
                               (Num (real (canvas_width r)) / viewWidth) (save c)))))) = Inr c5"
    by blast
  then show ?thesis
    unfolding render_def Let_def by simp
qed

lemma sprites_world0:
  "map (sprite renderer0 world0) [0 ..< body_length (bodies world0)]
     = map Some [''archon0'', ''unknown'']"
  by (simp add: sprite_def world_eval elemAt_def property_def upt_rec)

text \<open>
  Claim C7. When \<open>render\<close> returns, the current drawing state (transform, fill style,
  stroke style, line width) and the stack of saved states are what they were before the
  call. The background pass alone also leaves both as they were.
\<close>

theorem render_restores_state:
  "(render r world viewMin viewWidth nextStep lerpAmount c = Inr c'
      \<longrightarrow> cur c' = cur c \<and> stack c' = stack c)
   \<and> cur (renderBackground r world c) = cur c
   \<and> stack (renderBackground r world c) = stack c"
proof -
  let ?c3 = "translate (- vec_x viewMin) (- vec_y viewMin)
     (scale (Num (real (canvas_width r)) / viewWidth) (Num (real (canvas_width r)) / viewWidth)
        (save c))"
  let ?c4 = "renderBackground r world ?c3"
  have s4: "stack ?c4 = cur c # stack c"
    by (simp add: renderBackground_state stack_translate stack_scale save_def)
  have "cur c' = cur c \<and> stack c' = stack c"
    if ret: "render r world viewMin viewWidth nextStep lerpAmount c = Inr c'"
  proof -
    obtain c5 where c5: "c' = restore (renderIndicatorStrings world c5)" and
      d: "(case (lerpAmount, nextStep) of
               (Some lerpAmount', Some nextStep') \<Rightarrow>
                 renderBodiesInterpolated r world nextStep' lerpAmount'
                   (renderBullets r world lerpAmount' ?c4)
             | _ \<Rightarrow> renderBodies r world (renderBullets r world (Num 0) ?c4)) = Inr c5"
      using ret by (auto simp: render_def Let_def split: sum.splits)
    have "stack c5 = cur c # stack c"
    proof (cases "\<exists>t ns. lerpAmount = Some t \<and> nextStep = Some ns")
      case True
      then obtain t ns where "lerpAmount = Some t" "nextStep = Some ns" by blast
      with d have "renderBodiesInterpolated r world ns t (renderBullets r world t ?c4) = Inr c5"
        by simp
      then have "stack c5 = stack (renderBullets r world t ?c4)"
        unfolding renderBodiesInterpolated_def
        by (rule forEach_stack[rotated]) (rule stack_renderBodiesInterpolated_body)
      then show ?thesis by (simp add: stack_renderBullets s4)
    next
      case False
      with d have "renderBodies r world (renderBullets r world (Num 0) ?c4) = Inr c5"
        by (auto split: option.splits)
      then have "stack c5 = stack (renderBullets r world (Num 0) ?c4)"
        unfolding renderBodies_def
        by (rule forEach_stack[rotated]) (rule stack_renderBodies_body)
      then show ?thesis by (simp add: stack_renderBullets s4)
    qed
    then show ?thesis using c5
      by (simp add: renderIndicatorStrings_eq set_lineWidth_def restore_def)
  qed
  then show ?thesis by (simp add: renderBackground_state)
qed

theorem render_restores_state_witness:
  "\<exists>c'. render renderer0 world0 view0 (Num 20) (Some next0) (Some (Num 0.5)) ctx0 = Inr c'
        \<and> cur c' = cur ctx0 \<and> stack c' = stack ctx0
        \<and> cur (renderBackground renderer0 world0 ctx0) = cur ctx0
        \<and> stack (renderBackground renderer0 world0 ctx0) = stack ctx0"
proof -
  from render_returns[OF sprites_world0] obtain c' where
    h: "render renderer0 world0 view0 (Num 20) (Some next0) (Some (Num 0.5)) ctx0 = Inr c'"
    by blast
  from render_restores_state[of renderer0 world0 view0 "Num 20" "Some next0" "Some (Num 0.5)" ctx0 c'] h
  show ?thesis by blast
qed





lemma calls_dots_body:
  "calls (dots_body dots i c) =
     calls c @ [(cur c, BeginPath),
                (cur c, Arc (numAt (dots_x dots) i) (numAt (dots_y dots) i) INDICATOR_DOT_SIZE
                          (Num 0) (Num 2 * Math_PI) False)]"
  by (simp add: dots_body_def Let_def issue_def set_fillStyle_def)

lemma calls_lines_body:
  "calls (lines_body lines i c) =
     calls c @ [(cur c, BeginPath),
                (cur c, MoveTo (numAt (lines_startX lines) i) (numAt (lines_startY lines) i)),
                (cur c, LineTo (numAt (lines_endX lines) i) (numAt (lines_endY lines) i))]"
  by (simp add: lines_body_def Let_def issue_def set_fillStyle_def)

text \<open>
  Claim C9 as stated fails: \<open>world0\<close> has an indicator dot and an indicator line, and
  the indicator pass issues no call for it, so no circle is filled and no line stroked.
\<close>

theorem renderIndicatorStrings_counterexample:
  "dots_length (indicatorDots world0) = 1
   \<and> lines_length (indicatorLines world0) = 1
   \<and> calls (renderIndicatorStrings world0 ctx0) = []"
  by (simp add: renderIndicatorStrings_eq set_lineWidth_def world0_def ctx0_def)

text \<open>
  Claim C9, amended. The indicator pass does not read the world's dots and lines: it
  iterates two empty placeholder collections, so for every world it issues no call and
  its only effect is to set the line width to \<open>INDICATOR_LINE_WIDTH\<close>.
\<close>

theorem renderIndicatorStrings_draws_nothing:
  "renderIndicatorStrings world c = c\<lparr>cur := (cur c)\<lparr>lineWidth := INDICATOR_LINE_WIDTH\<rparr>\<rparr>
   \<and> calls (renderIndicatorStrings world c) = calls c"
  by (simp add: renderIndicatorStrings_eq set_lineWidth_def)

subsection \<open>The health bar in double arithmetic\<close>

lemma le_PInf: "x \<noteq> NaN \<Longrightarrow> x \<le> PInf"
  by (cases x) simp_all

lemma NInf_le: "x \<noteq> NaN \<Longrightarrow> NInf \<le> x"
  by (cases x) simp_all

lemma divide_pos_mono:
  assumes "0 < m" "X \<le> Y"
  shows "X / Num m \<le> Y / Num m"
proof -
  have "a / m \<le> b / m" if "a \<le> b" for a b :: real
    using that assms(1) by (simp add: divide_right_mono)
  then have "to_double (a / m) \<le> to_double (b / m)" if "a \<le> b" for a b
    using that by (intro to_double_mono) simp
  then show ?thesis
    using assms by (cases X; cases Y) (simp_all add: le_PInf NInf_le to_double_not_NaN)
qed

lemma fill_width_mono:
  assumes "0 < m" "h \<le> h'"
  shows "HEALTH_BAR_WIDTH * Num h / Num m \<le> HEALTH_BAR_WIDTH * Num h' / Num m"
proof -
  have "to_double (2 * h) \<le> to_double (2 * h')"
    using assms(2) by (intro to_double_mono) simp
  then show ?thesis
    unfolding HEALTH_BAR_WIDTH_def using assms(1) by (simp add: divide_pos_mono)
qed

lemma fill_width_zero: "m \<noteq> 0 \<Longrightarrow> HEALTH_BAR_WIDTH * Num 0 / Num m = Num 0"
  by (simp add: HEALTH_BAR_WIDTH_def to_double_0)

lemma double_multiple:
  assumes "to_double h = Num h"
  shows "h = of_int (round_half_even (h / quantum h)) * quantum h"
  using to_double_Num[OF assms] by (simp add: nearest_def)

lemma expo_twice: "expo h \<le> expo (2 * h) \<and> expo (2 * h) \<le> expo h + 1"
proof
  show "expo h \<le> expo (2 * h)" by (rule expo_mono) simp
  show "expo (2 * h) \<le> expo h + 1"
  proof (rule ccontr)
    assume "\<not> expo (2 * h) \<le> expo h + 1"
    then have big: "expo h + 2 \<le> expo (2 * h)" by simp
    with expo_ge[of h] have "- 1022 < expo (2 * h)" by simp
    then have "2 powi expo (2 * h) \<le> \<bar>2 * h\<bar>" by (rule expo_lower')
    moreover have "(2::real) powi (expo h + 2) \<le> 2 powi expo (2 * h)"
      using big by (intro power_int_increasing) simp_all
    moreover have "(2::real) powi (expo h + 2) = 2 * 2 powi (expo h + 1)"
      by (simp add: power_int_add)
    ultimately show False using expo_upper[of h] by simp
  qed
qed

lemma double_twice:
  assumes "to_double h = Num h"
  shows "nearest (2 * h) = 2 * h"
proof -
  define k where "k = round_half_even (h / quantum h)"
  have h: "h = of_int k * quantum h" unfolding k_def by (rule double_multiple[OF assms])
  have q: "0 < quantum h" by (rule quantum_pos)
  from expo_twice[of h] consider "expo (2 * h) = expo h" | "expo (2 * h) = expo h + 1"
    by linarith
  then show ?thesis
  proof cases
    case 1
    then have q2: "quantum (2 * h) = quantum h" by (simp add: quantum_def)
    have "2 * h / quantum h = of_int (2 * k)"
      using h q by (metis nonzero_mult_div_cancel_right of_int_mult of_int_numeral
          less_irrefl mult.assoc)
    then have "nearest (2 * h) = of_int (2 * k) * quantum h"
      unfolding nearest_def q2 by (simp only: rhe_of_int)
    then show ?thesis using h by simp
  next
    case 2
    then have q2: "quantum (2 * h) = 2 * quantum h"
      using pow2_double[of "expo h - 52"] by (simp add: quantum_def add.commute)
    have "2 * h / (2 * quantum h) = of_int k"
      using h q by (metis mult_divide_mult_cancel_left_if nonzero_mult_div_cancel_right
          less_irrefl zero_neq_numeral)
    then have "nearest (2 * h) = of_int k * (2 * quantum h)"
      unfolding nearest_def q2 by (simp only: rhe_of_int)
    then show ?thesis using h by simp
  qed
qed

lemma double_on_grid:
  assumes "to_double h = Num h" "\<bar>m\<bar> \<le> \<bar>h\<bar>"
  shows "\<exists>n::int. h = of_int n * quantum m"
proof -
  have "expo m - 52 \<le> expo h - 52" using expo_mono[OF assms(2)] by simp
  from pow2_on_grid[OF this] obtain j :: int where j: "quantum h = of_int j * quantum m"
    unfolding quantum_def[of h] by blast
  have "h = of_int (round_half_even (h / quantum h) * j) * quantum m"
    using double_multiple[OF assms(1)] j by (simp add: mult.assoc)
  then show ?thesis by blast
qed

lemma double_gap:
  assumes "to_double m = Num m" "to_double h = Num h" "0 < m" "m < h"
  shows "m + quantum m \<le> h"
proof -
  have q: "0 < quantum m" by (rule quantum_pos)
  from double_on_grid[OF assms(2), of m] assms(3,4) obtain n :: int where
    n: "h = of_int n * quantum m" by auto
  from double_on_grid[OF assms(1), of m] obtain k :: int where
    k: "m = of_int k * quantum m" by auto
  from assms(4) have "of_int k * quantum m < of_int n * quantum m" using n k by simp
  then have "(of_int k :: real) < of_int n" using q by (simp add: mult_less_cancel_right)
  then have "k + 1 \<le> n" by simp
  then have "(of_int (k + 1) :: real) \<le> of_int n" by (simp only: of_int_le_iff)
  then have "of_int (k + 1) * quantum m \<le> of_int n * quantum m"
    using q by (simp add: mult_right_mono)
  then show ?thesis using n k by (simp add: algebra_simps)
qed

lemma above_two:
  assumes "2 + 2 powi (- 52) < x"
  shows "Num 2 < to_double x"
proof (cases "4 \<le> x")
  case True
  then have "to_double 4 \<le> to_double x" by (rule to_double_mono)
  moreover have "to_double 4 = Num 4" by (simp add: double_eval)
  ultimately show ?thesis by (cases "to_double x") simp_all
next
  case False
  have "0 < (2::real) powi (- 52)" by simp
  with assms have x2: "2 < x" by linarith
  with False have e: "expo x = 1"
    by (simp add: expo_def expo_up.simps[of x] expo_up.simps[of "x / 2"])
  then have q: "quantum x = 2 powi (- 51)" by (simp add: quantum_def)
  have "of_int (2 ^ 52) + 1 / 2 < x / quantum x"
    using assms unfolding q by (simp add: field_simps)
  then have "2 ^ 52 + 1 \<le> round_half_even (x / quantum x)" by (rule rhe_above_half)
  then have "(of_int (2 ^ 52 + 1) :: real) \<le> of_int (round_half_even (x / quantum x))"
    by (simp only: of_int_le_iff)
  then have "of_int (2 ^ 52 + 1) * quantum x \<le> nearest x"
    unfolding nearest_def using quantum_pos[of x] by (simp add: mult_right_mono)
  then have lo: "2 < nearest x" unfolding q by simp
  have "x \<le> of_int (2 ^ 53) * quantum x" using False unfolding q by simp
  then have "nearest x \<le> of_int (2 ^ 53) * quantum x" by (rule nearest_le_grid)
  then have hi: "nearest x \<le> 4" unfolding q by simp
  from lo hi have "to_double x = Num (nearest x)" by (simp add: to_double_def Let_def)
  with lo show ?thesis by simp
qed

lemma fill_width_wider:
  assumes "to_double m = Num m" "to_double h = Num h" "0 < m" "m < h"
  shows "HEALTH_BAR_WIDTH < HEALTH_BAR_WIDTH * Num h / Num m"
proof -
  have n2: "nearest (2 * h) = 2 * h" using assms(2) by (rule double_twice)
  show ?thesis
  proof (cases "2 ^ 1024 \<le> 2 * h")
    case True
    then have "to_double (2 * h) = PInf" by (simp add: to_double_def Let_def n2)
    then show ?thesis using assms(3) by (simp add: HEALTH_BAR_WIDTH_def)
  next
    case False
    with assms(3,4) have t: "to_double (2 * h) = Num (2 * h)"
      by (simp add: to_double_def Let_def n2)
    have q: "0 < quantum m" by (rule quantum_pos)
    have gap: "m + quantum m \<le> h" using assms by (rule double_gap)
    have "m < 2 powi (expo m + 1)" using expo_upper[of m] assms(3) by simp
    moreover have "(2::real) powi (expo m + 1) = 2 powi 53 * quantum m"
      unfolding quantum_def by (subst power_int_add[symmetric]) (simp_all add: add.commute)
    ultimately have "m < 2 powi 53 * quantum m" by simp
    then have "2 powi (- 53) * m < quantum m" by (simp add: field_simps)
    with gap have "m + 2 powi (- 53) * m < h" by simp
    then have "(1 + 2 powi (- 53)) * m < h" by (simp add: algebra_simps)
    then have "1 + 2 powi (- 53) < h / m" using assms(3) by (simp add: pos_less_divide_eq)
    moreover have "2 * h / m = 2 * (h / m)" by simp
    moreover have "(2::real) powi (- 52) = 2 * 2 powi (- 53)" by simp
    ultimately have "2 + 2 powi (- 52) < 2 * h / m" by linarith
    then have "Num 2 < to_double (2 * h / m)" by (rule above_two)
    then show ?thesis using assms(3) by (simp add: HEALTH_BAR_WIDTH_def t)
  qed
qed

lemma drawHealthBar_calls:
  assumes "healthBars r" and "property (types (metadata r)) type = Some bodyType"
  shows "calls (drawHealthBar r x y health type c) =
           calls c @
           [((cur c)\<lparr>fillStyle := Color ''green''\<rparr>,
             FillRect x y (HEALTH_BAR_WIDTH * health / maxHealth bodyType) HEALTH_BAR_HEIGHT),
            ((cur c)\<lparr>fillStyle := Color ''green'', strokeStyle := Color ''black'',
                      lineWidth := to_double 0.1\<rparr>,
             StrokeRect x y HEALTH_BAR_WIDTH HEALTH_BAR_HEIGHT)]"
  using assms
  by (simp add: drawHealthBar_def Let_def fillRect_def strokeRect_def issue_def
      set_fillStyle_def set_strokeStyle_def set_lineWidth_def)

text \<open>
  Claim C10 as stated fails. With maxHealth 400, the healths \<open>200 + 1 / 2 ^ 45\<close> and
  \<open>200 + 2 / 2 ^ 45\<close> are two doubles between 0 and maxHealth, the first less than the second,
  and both give the fill width \<open>1 + 1 / 2 ^ 52\<close>: the width is not strictly increasing. The
  negative health \<open>- (1 / 2 ^ 1074)\<close> gives the width 0, which is not negative. With
  maxHealth 0 and health 0 the width is NaN.
\<close>

theorem health_fill_width_counterexample:
  "healthBars renderer0
   \<and> property (types (metadata renderer0)) (Some 0) = Some \<lparr>maxHealth = Num 400\<rparr>
   \<and> double (Num (200 + 1 / 2 ^ 45)) \<and> double (Num (200 + 2 / 2 ^ 45))
   \<and> Num 0 \<le> Num (200 + 1 / 2 ^ 45) \<and> Num (200 + 1 / 2 ^ 45) < Num (200 + 2 / 2 ^ 45)
   \<and> Num (200 + 2 / 2 ^ 45) \<le> Num 400
   \<and> green_fill_widths
        (calls (drawHealthBar renderer0 (Num 0) (Num 0) (Num (200 + 1 / 2 ^ 45)) (Some 0) ctx0))
       = [Num (1 + 1 / 2 ^ 52)]
   \<and> green_fill_widths
        (calls (drawHealthBar renderer0 (Num 0) (Num 0) (Num (200 + 2 / 2 ^ 45)) (Some 0) ctx0))
       = [Num (1 + 1 / 2 ^ 52)]
   \<and> \<not> Num (1 + 1 / 2 ^ 52) < Num (1 + 1 / 2 ^ 52)
   \<and> double (Num (- (1 / 2 ^ 1074))) \<and> Num (- (1 / 2 ^ 1074)) < Num 0
   \<and> green_fill_widths
        (calls (drawHealthBar renderer0 (Num 0) (Num 0) (Num (- (1 / 2 ^ 1074))) (Some 0) ctx0))
       = [Num 0]
   \<and> \<not> Num 0 < Num 0
   \<and> green_fill_widths
        (calls (drawHealthBar renderer_zero (Num 0) (Num 0) (Num 0) (Some 0) ctx0))
       = [NaN]"
  by (simp add: renderer_zero_def renderer0_def metadata0_def property_def drawHealthBar_def
      fillRect_def strokeRect_def issue_def set_fillStyle_def set_strokeStyle_def
      set_lineWidth_def ctx0_def green_fill_widths_def HEALTH_BAR_WIDTH_def double_eval)

text \<open>
  Claim C10, amended. With health bars enabled and metadata whose maxHealth is a
  positive double, \<open>drawHealthBar\<close> issues exactly two calls: the green \<open>fillRect\<close> of width
  \<open>HEALTH_BAR_WIDTH * health / maxHealth\<close> (double operations, no clamping) and the black
  \<open>strokeRect\<close> of width \<open>HEALTH_BAR_WIDTH\<close>. The fill width is monotonically non-decreasing
  in the health; for a health that is a double greater than maxHealth it is greater
  than \<open>HEALTH_BAR_WIDTH\<close>; for a negative health it is negative or zero.
\<close>

theorem health_fill_width:
  assumes "healthBars r"
      and "property (types (metadata r)) type = Some bodyType"
      and "maxHealth bodyType = Num m"
      and "0 < m"
      and "double (Num m)"
  shows "calls (drawHealthBar r x y health type c) =
           calls c @
           [((cur c)\<lparr>fillStyle := Color ''green''\<rparr>,
             FillRect x y (HEALTH_BAR_WIDTH * health / Num m) HEALTH_BAR_HEIGHT),
            ((cur c)\<lparr>fillStyle := Color ''green'', strokeStyle := Color ''black'',
                      lineWidth := to_double 0.1\<rparr>,
             StrokeRect x y HEALTH_BAR_WIDTH HEALTH_BAR_HEIGHT)]
       \<and> (\<forall>h h'. h \<le> h' \<longrightarrow>
            HEALTH_BAR_WIDTH * Num h / Num m \<le> HEALTH_BAR_WIDTH * Num h' / Num m)
       \<and> (\<forall>h. double (Num h) \<and> m < h \<longrightarrow>
            HEALTH_BAR_WIDTH < HEALTH_BAR_WIDTH * Num h / Num m)
       \<and> (\<forall>h. h < 0 \<longrightarrow> HEALTH_BAR_WIDTH * Num h / Num m \<le> Num 0)"
proof -
  have calls: "calls (drawHealthBar r x y health type c) =
           calls c @
           [((cur c)\<lparr>fillStyle := Color ''green''\<rparr>,
             FillRect x y (HEALTH_BAR_WIDTH * health / Num m) HEALTH_BAR_HEIGHT),
            ((cur c)\<lparr>fillStyle := Color ''green'', strokeStyle := Color ''black'',
                      lineWidth := to_double 0.1\<rparr>,
             StrokeRect x y HEALTH_BAR_WIDTH HEALTH_BAR_HEIGHT)]"
    using drawHealthBar_calls[OF assms(1,2)] by (simp add: assms(3))
  have mono: "\<forall>h h'. h \<le> h' \<longrightarrow>
      HEALTH_BAR_WIDTH * Num h / Num m \<le> HEALTH_BAR_WIDTH * Num h' / Num m"
    using fill_width_mono[OF assms(4)] by blast
  have wider: "\<forall>h. double (Num h) \<and> m < h \<longrightarrow>
      HEALTH_BAR_WIDTH < HEALTH_BAR_WIDTH * Num h / Num m"
    using fill_width_wider[of m] assms(4,5) by simp
  have neg: "\<forall>h. h < 0 \<longrightarrow> HEALTH_BAR_WIDTH * Num h / Num m \<le> Num 0"
  proof (intro allI impI)
    fix h :: real
    assume "h < 0"
    then have "HEALTH_BAR_WIDTH * Num h / Num m \<le> HEALTH_BAR_WIDTH * Num 0 / Num m"
      using fill_width_mono[OF assms(4), of h 0] by simp
    then show "HEALTH_BAR_WIDTH * Num h / Num m \<le> Num 0"
      using assms(4) by (simp add: fill_width_zero)
  qed
  from calls mono wider neg show ?thesis by blast
qed

theorem health_fill_width_witness:
  "healthBars renderer0
   \<and> property (types (metadata renderer0)) (Some 0) = Some \<lparr>maxHealth = Num 400\<rparr>
   \<and> maxHealth \<lparr>maxHealth = Num 400\<rparr> = Num 400
   \<and> (0::real) < 400
   \<and> double (Num 400)
   \<and> green_fill_widths (calls (drawHealthBar renderer0 (Num 0) (Num 0) (Num 200) (Some 0) ctx0))
       = [HEALTH_BAR_WIDTH * Num 200 / Num 400]
   \<and> HEALTH_BAR_WIDTH * Num 100 / Num 400 \<le> HEALTH_BAR_WIDTH * Num 200 / Num 400
   \<and> double (Num 500)
   \<and> HEALTH_BAR_WIDTH < HEALTH_BAR_WIDTH * Num 500 / Num 400
   \<and> HEALTH_BAR_WIDTH * Num (- 1) / Num 400 \<le> Num 0"
proof -
  have h1: "healthBars renderer0"
    by (simp add: renderer0_def)
  have h2: "property (types (metadata renderer0)) (Some 0) = Some \<lparr>maxHealth = Num 400\<rparr>"
    by (simp add: renderer0_def metadata0_def property_def)
  have h3: "maxHealth \<lparr>maxHealth = Num 400\<rparr> = Num 400"
    by simp
  have h4: "(0::real) < 400"
    by simp
  have h5: "double (Num 400)" and d500: "double (Num 500)"
    by (simp_all add: double_eval)
  note t = health_fill_width[OF h1 h2 h3 h4 h5, of "Num 0" "Num 0" "Num 200" ctx0]
  have w: "green_fill_widths (calls (drawHealthBar renderer0 (Num 0) (Num 0) (Num 200) (Some 0) ctx0))
       = [HEALTH_BAR_WIDTH * Num 200 / Num 400]"
    by (simp only: t[THEN conjunct1]) (simp add: green_fill_widths_def ctx0_def)
  have a: "(100::real) \<le> 200" "(400::real) < 500" "(- 1::real) < 0"
    by simp_all
  from t a d500 have
    "HEALTH_BAR_WIDTH * Num 100 / Num 400 \<le> HEALTH_BAR_WIDTH * Num 200 / Num 400"
    "HEALTH_BAR_WIDTH < HEALTH_BAR_WIDTH * Num 500 / Num 400"
    "HEALTH_BAR_WIDTH * Num (- 1) / Num 400 \<le> Num 0"
    by blast+
  with h1 h2 h3 h4 h5 d500 w show ?thesis by blast
qed

end
